theory Spec2Isabelle
  imports Main "HOL-Library.Sublist"
begin

section \<open>The authorization engine of arborist (server.go, AuthEngine)\<close>

text \<open>
  The engine of \<^verbatim>\<open>server.go\<close> keeps Go pointers to shared, mutable objects: roles,
  permissions, resources and services. Pointer identity matters (two lookups may or may
  not give the same object), so the model has an explicit store: a reference is a natural
  number, every kind of object has its own table from references to objects, and
  \<open>next_ref\<close> is the next unused reference. A Go \<^verbatim>\<open>nil\<close> pointer is \<open>None\<close>.
  Go maps keyed by strings are HOL maps; Go sets \<^verbatim>\<open>map[*T]struct{}\<close> are lists without
  duplicates, in insertion order (Go leaves the iteration order open).
\<close>

subsection \<open>Data model\<close>

type_synonym ref = nat

text \<open>
  Modelled from the spec: the declarations of \<^verbatim>\<open>Resource\<close>, \<^verbatim>\<open>Service\<close>, \<^verbatim>\<open>Action\<close>,
  \<^verbatim>\<open>Permission\<close>, \<^verbatim>\<open>Role\<close> and \<^verbatim>\<open>Constraints\<close> are not in the repository's files. The
  fields are those of the spec's data model that the engine's code reads and writes
  (\<^verbatim>\<open>Resource.ID\<close>, \<^verbatim>\<open>Service.uriToResource\<close>, \<^verbatim>\<open>Action.Service/Resource/Method\<close>,
  \<^verbatim>\<open>Permission.ID/Action/Constraints/rolesGranting\<close>,
  \<^verbatim>\<open>Role.ID/Tags/Permissions/Subroles/Parent\<close>).
\<close>

type_synonym Constraints = "(string \<times> string) list"

record Resource =
  res_ID :: string

record Service =
  svc_ID :: string
  uriToResource :: "string \<rightharpoonup> ref"

record Action =
  act_Service :: "ref option"
  act_Resource :: "ref option"
  act_Method :: string

record Permission =
  perm_ID :: string
  perm_Action :: Action
  perm_Constraints :: Constraints
  rolesGranting :: "ref list"

record Role =
  role_ID :: string
  Tags :: "string \<rightharpoonup> string"
  Permissions :: "ref list"
  Subroles :: "ref list"
  Parent :: "ref option"

record heap =
  role_objs :: "ref \<rightharpoonup> Role"
  permission_objs :: "ref \<rightharpoonup> Permission"
  resource_objs :: "ref \<rightharpoonup> Resource"
  service_objs :: "ref \<rightharpoonup> Service"
  next_ref :: ref

text \<open>The struct \<^verbatim>\<open>AuthEngine\<close> (server.go, lines 524-542).\<close>

record AuthEngine =
  root_role :: ref
  roles :: "string \<rightharpoonup> ref"
  resources :: "string \<rightharpoonup> ref"
  permissions :: "string \<rightharpoonup> ref"
  services :: "string \<rightharpoonup> ref"

type_synonym state = "heap \<times> AuthEngine"

datatype error = InvalidIdentifier | RoleAlreadyExists | InvalidAction | InvalidRequest
  | UnmarshalError

datatype panic = NilDereference | CloseOfClosedChannel

text \<open>The wire-format descriptions the loader consumes.\<close>

record ActionJSON =
  aj_Service :: string
  aj_Resource :: string
  aj_Method :: string

record PermissionJSON =
  pj_ID :: string
  pj_Action :: ActionJSON
  pj_Constraints :: Constraints

datatype RoleJSON = RoleJSON
  (rj_ID: string)
  (rj_Tags: "(string \<times> string) list")
  (rj_Permissions: "PermissionJSON list")
  (rj_Subroles: "RoleJSON list")

record ServiceJSON =
  sj_ID :: string
  sj_URIsToResources :: "(string \<times> string) list"

subsection \<open>Constructors of the objects\<close>

definition empty_heap :: heap where
  "empty_heap = \<lparr>role_objs = Map.empty, permission_objs = Map.empty,
     resource_objs = Map.empty, service_objs = Map.empty, next_ref = 0\<rparr>"

text \<open>
  Modelled from the spec: \<^verbatim>\<open>NewRole\<close> is not in the repository's files. The spec says that
  constructing a role by identifier fails with \<open>InvalidIdentifier\<close> if the identifier is
  empty or malformed. Which identifiers are malformed is not said: it is the parameter
  \<open>malformed\<close>, a predicate on identifiers, of \<^verbatim>\<open>NewRole\<close> and of every function that
  constructs roles. The new role has no tags, permissions, subroles or parent.
\<close>

definition NewRole :: "(string \<Rightarrow> bool) \<Rightarrow> string \<Rightarrow> heap \<Rightarrow> heap \<times> (error + ref)" where
  "NewRole malformed ID h =
     (if ID = [] \<or> malformed ID then (h, Inl InvalidIdentifier)
      else (h\<lparr>role_objs := (role_objs h)(next_ref h \<mapsto>
                 \<lparr>role_ID = ID, Tags = Map.empty, Permissions = [], Subroles = [],
                  Parent = None\<rparr>),
               next_ref := Suc (next_ref h)\<rparr>,
            Inr (next_ref h)))"

text \<open>
  Modelled from the spec: \<^verbatim>\<open>NewResource\<close>, \<^verbatim>\<open>NewService\<close> and \<^verbatim>\<open>newPermission\<close> are not in
  the repository's files. Each allocates a new object carrying the identifier it is given;
  a new service has an empty alias table, a new permission no granting role, no
  constraints and an action whose references are \<^verbatim>\<open>nil\<close>.
\<close>

definition NewResource :: "string \<Rightarrow> heap \<Rightarrow> heap \<times> ref" where
  "NewResource resourceID h =
     (h\<lparr>resource_objs := (resource_objs h)(next_ref h \<mapsto> \<lparr>res_ID = resourceID\<rparr>),
        next_ref := Suc (next_ref h)\<rparr>,
      next_ref h)"

definition NewService :: "string \<Rightarrow> heap \<Rightarrow> heap \<times> ref" where
  "NewService ID h =
     (h\<lparr>service_objs := (service_objs h)(next_ref h \<mapsto>
          \<lparr>svc_ID = ID, uriToResource = Map.empty\<rparr>),
        next_ref := Suc (next_ref h)\<rparr>,
      next_ref h)"

definition newAction :: Action where
  "newAction = \<lparr>act_Service = None, act_Resource = None, act_Method = []\<rparr>"

definition newPermission :: "string \<Rightarrow> heap \<Rightarrow> heap \<times> ref" where
  "newPermission ID h =
     (h\<lparr>permission_objs := (permission_objs h)(next_ref h \<mapsto>
          \<lparr>perm_ID = ID, perm_Action = newAction, perm_Constraints = [],
           rolesGranting = []\<rparr>),
        next_ref := Suc (next_ref h)\<rparr>,
      next_ref h)"

subsection \<open>The engine and its catalog\<close>

text \<open>\<^verbatim>\<open>NewAuthEngine\<close> (lines 546-570): a blank role tree holding just the root role.\<close>

definition NewAuthEngine :: "(string \<Rightarrow> bool) \<Rightarrow> heap \<Rightarrow> heap \<times> (error + AuthEngine)" where
  "NewAuthEngine malformed h =
     (case NewRole malformed ''root'' h of
        (h', Inl err) \<Rightarrow> (h', Inl err)
      | (h', Inr root) \<Rightarrow>
          (h', Inr \<lparr>root_role = root, roles = [''root'' \<mapsto> root], resources = Map.empty,
                    permissions = Map.empty, services = Map.empty\<rparr>))"

text \<open>\<^verbatim>\<open>findResource\<close> (lines 611-613), \<^verbatim>\<open>FindRoleNamed\<close> (643-645) and
  \<^verbatim>\<open>FindServiceNamed\<close> (648-650): plain lookups, \<^verbatim>\<open>nil\<close> for an unknown identifier.\<close>

definition findResource :: "AuthEngine \<Rightarrow> string \<Rightarrow> ref option" where
  "findResource engine resourceID = resources engine resourceID"

definition FindRoleNamed :: "AuthEngine \<Rightarrow> string \<Rightarrow> ref option" where
  "FindRoleNamed engine ID = roles engine ID"

definition FindServiceNamed :: "AuthEngine \<Rightarrow> string \<Rightarrow> ref option" where
  "FindServiceNamed engine ID = services engine ID"

text \<open>\<^verbatim>\<open>findOrCreateService\<close> (lines 654-662): a service that is not registered is created
  and stored in \<^verbatim>\<open>engine.services\<close>. The Go function's error result is always \<^verbatim>\<open>nil\<close>.\<close>

definition findOrCreateService :: "string \<Rightarrow> state \<Rightarrow> state \<times> ref" where
  "findOrCreateService ID s =
     (case s of (h, engine) \<Rightarrow>
        (case services engine ID of
           Some service \<Rightarrow> ((h, engine), service)
         | None \<Rightarrow>
             (case NewService ID h of (h', service) \<Rightarrow>
                ((h', engine\<lparr>services := (services engine)(ID \<mapsto> service)\<rparr>), service))))"

text \<open>\<^verbatim>\<open>findOrCreateResource\<close> (lines 668-676): a resource that is not registered is
  created and returned; nothing is stored in \<^verbatim>\<open>engine.resources\<close>.\<close>

definition findOrCreateResource :: "string \<Rightarrow> state \<Rightarrow> state \<times> ref" where
  "findOrCreateResource resourceID s =
     (case s of (h, engine) \<Rightarrow>
        (case resources engine resourceID of
           Some resource \<Rightarrow> ((h, engine), resource)
         | None \<Rightarrow>
             (case NewResource resourceID h of (h', resource) \<Rightarrow> ((h', engine), resource))))"

subsection \<open>Updating objects in place\<close>

text \<open>A write through a pointer replaces the object the reference stands for. Go pointers
  are never dangling, so the case of a reference with no object does not arise in a run
  that starts from \<^verbatim>\<open>NewAuthEngine\<close>; the model leaves the store as it is there.\<close>

definition update_role :: "ref \<Rightarrow> (Role \<Rightarrow> Role) \<Rightarrow> heap \<Rightarrow> heap" where
  "update_role r f h =
     (case role_objs h r of
        None \<Rightarrow> h
      | Some x \<Rightarrow> h\<lparr>role_objs := (role_objs h)(r \<mapsto> f x)\<rparr>)"

definition update_permission :: "ref \<Rightarrow> (Permission \<Rightarrow> Permission) \<Rightarrow> heap \<Rightarrow> heap" where
  "update_permission r f h =
     (case permission_objs h r of
        None \<Rightarrow> h
      | Some x \<Rightarrow> h\<lparr>permission_objs := (permission_objs h)(r \<mapsto> f x)\<rparr>)"

definition update_service :: "ref \<Rightarrow> (Service \<Rightarrow> Service) \<Rightarrow> heap \<Rightarrow> heap" where
  "update_service r f h =
     (case service_objs h r of
        None \<Rightarrow> h
      | Some x \<Rightarrow> h\<lparr>service_objs := (service_objs h)(r \<mapsto> f x)\<rparr>)"

text \<open>\<^verbatim>\<open>set[x] = struct{}{}\<close> on a Go set of pointers.\<close>

definition insert_ref :: "ref \<Rightarrow> ref list \<Rightarrow> ref list" where
  "insert_ref r xs = (if r \<in> set xs then xs else xs @ [r])"

subsection \<open>The graph loader\<close>

text \<open>
  Modelled from the spec: \<^verbatim>\<open>ActionJSON.validateFields\<close> is not in the repository's files.
  The spec says that resolving an action fails with \<open>InvalidAction\<close> if the service,
  resource or method identifier is missing (an empty string, in a Go struct).
\<close>

definition validateFields :: "ActionJSON \<Rightarrow> error option" where
  "validateFields actionJSON =
     (if aj_Service actionJSON = [] \<or> aj_Resource actionJSON = [] \<or> aj_Method actionJSON = []
      then Some InvalidAction else None)"

text \<open>\<^verbatim>\<open>actionFromJSON\<close> (lines 788-810).\<close>

definition actionFromJSON :: "ActionJSON \<Rightarrow> state \<Rightarrow> state \<times> (error + Action)" where
  "actionFromJSON actionJSON s =
     (case validateFields actionJSON of
        Some err \<Rightarrow> (s, Inl err)
      | None \<Rightarrow>
          (case findOrCreateService (aj_Service actionJSON) s of (s1, service) \<Rightarrow>
             (case findOrCreateResource (aj_Resource actionJSON) s1 of (s2, resource) \<Rightarrow>
                (s2, Inr (newAction\<lparr>act_Service := Some service,
                                     act_Resource := Some resource,
                                     act_Method := aj_Method actionJSON\<rparr>)))))"

text \<open>\<^verbatim>\<open>LoadPermissionFromJSON\<close> (lines 770-780): the permission is allocated first, then the
  action is resolved; the permission is returned and stored nowhere in the engine.\<close>

definition LoadPermissionFromJSON :: "PermissionJSON \<Rightarrow> state \<Rightarrow> state \<times> (error + ref)" where
  "LoadPermissionFromJSON permissionJSON s =
     (case s of (h, engine) \<Rightarrow>
        (case newPermission (pj_ID permissionJSON) h of (h1, permission) \<Rightarrow>
           (case actionFromJSON (pj_Action permissionJSON) (h1, engine) of
              (s2, Inl err) \<Rightarrow> (s2, Inl err)
            | ((h2, engine2), Inr action) \<Rightarrow>
                ((update_permission permission
                    (\<lambda>p. p\<lparr>perm_Action := action,
                            perm_Constraints := pj_Constraints permissionJSON\<rparr>) h2,
                  engine2),
                 Inr permission))))"

text \<open>The loop of lines 719-725 over the permission descriptions of the role being built.\<close>

fun loadPermissions :: "PermissionJSON list \<Rightarrow> ref \<Rightarrow> state \<Rightarrow> state \<times> error option" where
  "loadPermissions [] role s = (s, None)"
| "loadPermissions (permissionJSON # rest) role s =
     (case LoadPermissionFromJSON permissionJSON s of
        (s', Inl err) \<Rightarrow> (s', Some err)
      | ((h', engine'), Inr permission) \<Rightarrow>
          loadPermissions rest role
            (update_role role (\<lambda>r. r\<lparr>Permissions := insert_ref permission (Permissions r)\<rparr>) h',
             engine'))"

text \<open>The loop of lines 714-716 that copies the tags.\<close>

definition copyTags :: "(string \<times> string) list \<Rightarrow> ref \<Rightarrow> heap \<Rightarrow> heap" where
  "copyTags tags role h =
     fold (\<lambda>(tag, val). update_role role (\<lambda>r. r\<lparr>Tags := (Tags r)(tag \<mapsto> val)\<rparr>)) tags h"

text \<open>The loop of lines 737-739 that points every subrole back to its parent.\<close>

definition linkSubroles :: "ref \<Rightarrow> heap \<Rightarrow> heap" where
  "linkSubroles role h =
     (case role_objs h role of
        None \<Rightarrow> h
      | Some r \<Rightarrow>
          fold (\<lambda>subrole. update_role subrole (\<lambda>x. x\<lparr>Parent := Some role\<rparr>)) (Subroles r) h)"

text \<open>\<^verbatim>\<open>recursivelyLoadRoleFromJSON\<close> (lines 700-745), with the loop of lines 728-734 over
  the subrole descriptions as \<open>loadSubroles\<close>. Every early return keeps the store and
  the engine as they are at that moment. The role is registered under \<^verbatim>\<open>role.ID\<close>, which
  is the identifier \<^verbatim>\<open>NewRole\<close> was given.\<close>

fun recursivelyLoadRoleFromJSON ::
    "(string \<Rightarrow> bool) \<Rightarrow> RoleJSON \<Rightarrow> state \<Rightarrow> state \<times> (error + ref)"
  and loadSubroles ::
    "(string \<Rightarrow> bool) \<Rightarrow> RoleJSON list \<Rightarrow> ref \<Rightarrow> state \<Rightarrow> state \<times> error option" where
  "recursivelyLoadRoleFromJSON malformed (RoleJSON ID tags perms subs) s =
     (case s of (h, engine) \<Rightarrow>
        (case roles engine ID of
           Some existing \<Rightarrow> (s, Inl RoleAlreadyExists)
         | None \<Rightarrow>
             (case NewRole malformed ID h of
                (h1, Inl err) \<Rightarrow> ((h1, engine), Inl err)
              | (h1, Inr role) \<Rightarrow>
                  (case loadPermissions perms role (copyTags tags role h1, engine) of
                     (s2, Some err) \<Rightarrow> (s2, Inl err)
                   | (s2, None) \<Rightarrow>
                       (case loadSubroles malformed subs role s2 of
                          (s3, Some err) \<Rightarrow> (s3, Inl err)
                        | ((h3, engine3), None) \<Rightarrow>
                            ((linkSubroles role h3,
                              engine3\<lparr>roles := (roles engine3)(ID \<mapsto> role)\<rparr>),
                             Inr role))))))"
| "loadSubroles malformed [] role s = (s, None)"
| "loadSubroles malformed (subroleJSON # rest) role s =
     (case recursivelyLoadRoleFromJSON malformed subroleJSON s of
        (s', Inl err) \<Rightarrow> (s', Some err)
      | ((h', engine'), Inr subrole) \<Rightarrow>
          loadSubroles malformed rest role
            (update_role role (\<lambda>r. r\<lparr>Subroles := insert_ref subrole (Subroles r)\<rparr>) h',
             engine'))"

text \<open>\<^verbatim>\<open>addNewRootNode\<close> (lines 678-680) and \<^verbatim>\<open>LoadRoleFromJSON\<close> (lines 684-693).\<close>

definition addNewRootNode :: "ref \<Rightarrow> state \<Rightarrow> state" where
  "addNewRootNode role s =
     (case s of (h, engine) \<Rightarrow>
        (update_role (root_role engine)
           (\<lambda>r. r\<lparr>Subroles := insert_ref role (Subroles r)\<rparr>) h,
         engine))"

definition LoadRoleFromJSON ::
    "(string \<Rightarrow> bool) \<Rightarrow> RoleJSON \<Rightarrow> state \<Rightarrow> state \<times> error option" where
  "LoadRoleFromJSON malformed roleJSON s =
     (case recursivelyLoadRoleFromJSON malformed roleJSON s of
        (s', Inl err) \<Rightarrow> (s', Some err)
      | (s', Inr role) \<Rightarrow> (addNewRootNode role s', None))"

text \<open>\<^verbatim>\<open>LoadServiceFromJSON\<close> (lines 815-828), with the loop over the alias table as
  \<open>loadURIs\<close>.\<close>

fun loadURIs :: "(string \<times> string) list \<Rightarrow> ref \<Rightarrow> state \<Rightarrow> state" where
  "loadURIs [] service s = s"
| "loadURIs ((uri, resource_name) # rest) service s =
     (case findOrCreateResource resource_name s of ((h', engine'), resource) \<Rightarrow>
        loadURIs rest service
          (update_service service
             (\<lambda>sv. sv\<lparr>uriToResource := (uriToResource sv)(uri \<mapsto> resource)\<rparr>) h',
           engine'))"

definition LoadServiceFromJSON :: "ServiceJSON \<Rightarrow> state \<Rightarrow> state \<times> ref" where
  "LoadServiceFromJSON serviceJSON s =
     (case s of (h, engine) \<Rightarrow>
        (case NewService (sj_ID serviceJSON) h of (h1, service) \<Rightarrow>
           (case loadURIs (sj_URIsToResources serviceJSON) service (h1, engine) of
              (h2, engine2) \<Rightarrow>
                ((h2, engine2\<lparr>services := (services engine2)(sj_ID serviceJSON \<mapsto> service)\<rparr>),
                 service))))"

text \<open>
  Modelled from the spec: \<^verbatim>\<open>Role.update\<close> is not in the repository's files. The spec says
  that it merges another role's tags, permissions and subroles into an existing role in
  place, and that the merge only adds. It is a method of a role: it has no access to the
  engine's registries.
\<close>

definition role_update :: "ref \<Rightarrow> ref \<Rightarrow> heap \<Rightarrow> heap" where
  "role_update role other h =
     (case role_objs h other of
        None \<Rightarrow> h
      | Some addition \<Rightarrow>
          update_role role
            (\<lambda>r. r\<lparr>Tags := Tags r ++ Tags addition,
                    Permissions := fold insert_ref (Permissions addition) (Permissions r),
                    Subroles := fold insert_ref (Subroles addition) (Subroles r)\<rparr>) h)"

text \<open>\<^verbatim>\<open>updateRoleWithJSON\<close> (lines 749-757). The role is looked up before the addition is
  loaded and is not checked: with an unknown \<open>roleID\<close> the call of \<^verbatim>\<open>update\<close> on the
  \<^verbatim>\<open>nil\<close> role panics, after the addition has been loaded.\<close>

definition updateRoleWithJSON ::
    "(string \<Rightarrow> bool) \<Rightarrow> string \<Rightarrow> RoleJSON \<Rightarrow> state \<Rightarrow> state \<times> (panic + error option)" where
  "updateRoleWithJSON malformed roleID additionJSON s =
     (case recursivelyLoadRoleFromJSON malformed additionJSON s of
        (s', Inl err) \<Rightarrow> (s', Inr (Some err))
      | ((h', engine'), Inr roleAdditions) \<Rightarrow>
          (case FindRoleNamed (snd s) roleID of
             None \<Rightarrow> ((h', engine'), Inl NilDereference)
           | Some role \<Rightarrow> ((role_update role roleAdditions h', engine'), Inr None)))"

subsection \<open>Detaching roles and dropping permissions\<close>

text \<open>\<^verbatim>\<open>dropPermissionIfOrphaned\<close> (lines 762-766).\<close>

definition dropPermissionIfOrphaned :: "ref \<Rightarrow> state \<Rightarrow> state \<times> panic option" where
  "dropPermissionIfOrphaned permission s =
     (case s of (h, engine) \<Rightarrow>
        (case permission_objs h permission of
           None \<Rightarrow> (s, Some NilDereference)
         | Some p \<Rightarrow>
             (if length (rolesGranting p) = 0
              then ((h, engine\<lparr>permissions := (permissions engine)(perm_ID p := None)\<rparr>), None)
              else (s, None))))"

text \<open>\<^verbatim>\<open>detachRole\<close> (lines 832-839). A role without a parent (the root) makes the read of
  \<^verbatim>\<open>role.Parent.Subroles\<close> panic.\<close>

definition detachRole :: "ref \<Rightarrow> state \<Rightarrow> state \<times> panic option" where
  "detachRole role s =
     (case s of (h, engine) \<Rightarrow>
        (case role_objs h role of
           None \<Rightarrow> (s, Some NilDereference)
         | Some r \<Rightarrow>
             (case Parent r of
                None \<Rightarrow> (s, Some NilDereference)
              | Some parent \<Rightarrow>
                  ((update_role parent (\<lambda>p. p\<lparr>Subroles := removeAll role (Subroles p)\<rparr>) h,
                    engine\<lparr>roles := (roles engine)(role_ID r := None)\<rparr>),
                   None))))"

text \<open>
  Modelled from the spec: \<^verbatim>\<open>Role.allSubroles\<close> is not in the repository's files. The spec
  says that it computes a role's full descendant set. The traversal follows the
  \<open>Subroles\<close> of the store; the number of allocated references bounds the depth of a
  tree in the store, and is the fuel.
\<close>

fun descendants :: "nat \<Rightarrow> heap \<Rightarrow> ref \<Rightarrow> ref list" where
  "descendants 0 h role = []"
| "descendants (Suc fuel) h role =
     (case role_objs h role of
        None \<Rightarrow> []
      | Some r \<Rightarrow> concat (map (\<lambda>subrole. subrole # descendants fuel h subrole) (Subroles r)))"

definition allSubroles :: "heap \<Rightarrow> ref \<Rightarrow> ref list" where
  "allSubroles h role = descendants (next_ref h) h role"

text \<open>\<^verbatim>\<open>detachRoleRecursively\<close> (lines 843-848). The descendants are read after the role
  has been detached.\<close>

definition detachRoleRecursively :: "ref \<Rightarrow> state \<Rightarrow> state \<times> panic option" where
  "detachRoleRecursively role s =
     (case detachRole role s of
        (s', Some p) \<Rightarrow> (s', Some p)
      | ((h', engine'), None) \<Rightarrow>
          ((h', fold (\<lambda>subrole e.
                   (case role_objs h' subrole of
                      None \<Rightarrow> e
                    | Some x \<Rightarrow> e\<lparr>roles := (roles e)(role_ID x := None)\<rparr>))
                 (allSubroles h' role) engine'),
           None))"

subsection \<open>Sequences of load operations\<close>

text \<open>The operations that load content into the engine, and a run of a list of them from
  a state. An operation that fails or panics leaves the state as it is at that moment.\<close>

datatype load_op =
    OpLoadRole RoleJSON
  | OpUpdateRole string RoleJSON
  | OpLoadService ServiceJSON
  | OpLoadPermission PermissionJSON

fun apply_op :: "(string \<Rightarrow> bool) \<Rightarrow> load_op \<Rightarrow> state \<Rightarrow> state" where
  "apply_op malformed (OpLoadRole roleJSON) s = fst (LoadRoleFromJSON malformed roleJSON s)"
| "apply_op malformed (OpUpdateRole roleID additionJSON) s = fst (updateRoleWithJSON malformed roleID additionJSON s)"
| "apply_op malformed (OpLoadService serviceJSON) s = fst (LoadServiceFromJSON serviceJSON s)"
| "apply_op malformed (OpLoadPermission permissionJSON) s = fst (LoadPermissionFromJSON permissionJSON s)"

definition run_ops :: "(string \<Rightarrow> bool) \<Rightarrow> load_op list \<Rightarrow> state \<Rightarrow> state" where
  "run_ops malformed ops s = fold (apply_op malformed) ops s"

subsection \<open>Parsing an authorization request\<close>

text \<open>The struct \<^verbatim>\<open>authRequest\<close> (lines 860-864) and the struct \<^verbatim>\<open>authResponse\<close>
  (lines 880-896). \<^verbatim>\<open>Roles\<close> is a slice of pointers to roles.\<close>

record authRequest =
  req_Roles :: "ref option list"
  req_Action :: Action
  req_Constraints :: Constraints

record authResponse =
  Auth :: bool
  Role_ID :: "string option"
  PermissionGranting :: "ref option"
  PermissionsMismatching :: "ref list"

text \<open>\<^verbatim>\<open>ParseRequest\<close> (lines 866-876). \<^verbatim>\<open>json.Unmarshal\<close> is the Go library's: it is a
  parameter \<open>unmarshal\<close>, which from the body and the store gives the store with the
  objects it decoded, the request it filled in, and its error (\<open>None\<close> for \<^verbatim>\<open>nil\<close>).
  The error is not looked at before the resource's \<^verbatim>\<open>ID\<close> is read through the pointer
  \<^verbatim>\<open>request.Action.Resource\<close>; a \<^verbatim>\<open>nil\<close> pointer there panics. The result pairs the request
  with the error of \<^verbatim>\<open>json.Unmarshal\<close>.\<close>

definition ParseRequest ::
    "(string \<Rightarrow> heap \<Rightarrow> heap \<times> authRequest \<times> error option) \<Rightarrow> string \<Rightarrow> state
       \<Rightarrow> state \<times> (panic + authRequest \<times> error option)" where
  "ParseRequest unmarshal body s =
     (case s of (h, engine) \<Rightarrow>
        (case unmarshal body h of (h', request, err) \<Rightarrow>
           (case act_Resource (req_Action request) of
              None \<Rightarrow> ((h', engine), Inl NilDereference)
            | Some decoded \<Rightarrow>
                (case resource_objs h' decoded of
                   None \<Rightarrow> ((h', engine), Inl NilDereference)
                 | Some resource \<Rightarrow>
                     ((h', engine),
                      Inr (request\<lparr>req_Action := (req_Action request)
                               \<lparr>act_Resource := findResource engine (res_ID resource)\<rparr>\<rparr>,
                           err))))))"

subsection \<open>The authorization evaluator\<close>

text \<open>
  Modelled from the spec: \<^verbatim>\<open>Role.validate\<close> is not in the repository's files. The spec's
  match rule: a permission's action matches the requested action when the service
  identifiers are equal, the methods are equal, and the requested resource path is the
  permission's resource path or lies under it. The constraints are satisfied when every
  key of the permission's constraints is offered by the request with an equal value. A
  role is validated over its own permissions and those of its full descendant subtree:
  the first permission that matches and is satisfied grants; a permission whose action
  matches and whose constraints fail is recorded as mismatching. An action with a
  \<^verbatim>\<open>nil\<close> service or resource matches nothing.
\<close>

definition resource_path_matches :: "string \<Rightarrow> string \<Rightarrow> bool" where
  "resource_path_matches permitted requested =
     (requested = permitted \<or> prefix (permitted @ ''/'') requested)"

definition service_ID_of :: "heap \<Rightarrow> ref option \<Rightarrow> string option" where
  "service_ID_of h r =
     (case r of None \<Rightarrow> None | Some x \<Rightarrow> map_option svc_ID (service_objs h x))"

definition resource_ID_of :: "heap \<Rightarrow> ref option \<Rightarrow> string option" where
  "resource_ID_of h r =
     (case r of None \<Rightarrow> None | Some x \<Rightarrow> map_option res_ID (resource_objs h x))"

definition action_matches :: "heap \<Rightarrow> Action \<Rightarrow> Action \<Rightarrow> bool" where
  "action_matches h permitted requested =
     (case (service_ID_of h (act_Service permitted), service_ID_of h (act_Service requested),
            resource_ID_of h (act_Resource permitted), resource_ID_of h (act_Resource requested)) of
        (Some ps, Some rs, Some pr, Some rr) \<Rightarrow>
           ps = rs \<and> act_Method permitted = act_Method requested \<and> resource_path_matches pr rr
      | _ \<Rightarrow> False)"

definition constraints_satisfied :: "Constraints \<Rightarrow> Constraints \<Rightarrow> bool" where
  "constraints_satisfied required offered =
     list_all (\<lambda>(k, v). map_of offered k = Some v) required"

fun check_permissions ::
    "heap \<Rightarrow> ref list \<Rightarrow> Action \<Rightarrow> Constraints \<Rightarrow> ref list \<Rightarrow> authResponse" where
  "check_permissions h [] action constraints mismatching =
     \<lparr>Auth = False, Role_ID = None, PermissionGranting = None,
      PermissionsMismatching = mismatching\<rparr>"
| "check_permissions h (p # ps) action constraints mismatching =
     (case permission_objs h p of
        None \<Rightarrow> check_permissions h ps action constraints mismatching
      | Some permission \<Rightarrow>
          (if action_matches h (perm_Action permission) action
           then (if constraints_satisfied (perm_Constraints permission) constraints
                 then \<lparr>Auth = True, Role_ID = None, PermissionGranting = Some p,
                       PermissionsMismatching = []\<rparr>
                 else check_permissions h ps action constraints (mismatching @ [p]))
           else check_permissions h ps action constraints mismatching))"

definition permissions_of :: "heap \<Rightarrow> ref \<Rightarrow> ref list" where
  "permissions_of h role = (case role_objs h role of None \<Rightarrow> [] | Some r \<Rightarrow> Permissions r)"

definition validate :: "heap \<Rightarrow> ref \<Rightarrow> Action \<Rightarrow> Constraints \<Rightarrow> authResponse" where
  "validate h role action constraints =
     check_permissions h (concat (map (permissions_of h) (role # allSubroles h role)))
       action constraints []"

text \<open>
  \<^verbatim>\<open>CheckAuth\<close> (lines 900-972) starts one goroutine per entry of the slice \<^verbatim>\<open>roles\<close>, one
  goroutine that waits for the wait group and then closes \<^verbatim>\<open>done_channel\<close>, and then
  selects on the two channels. The Go scheduler decides the interleaving; the model takes
  the scheduler's choices as a list of events and is a function of it. An event runs one
  goroutine's next step as a whole:
  \<^item> \<open>Task i\<close>: the body of lines 943-961 for entry \<open>i\<close> of the slice;
  \<^item> \<open>Waiter\<close>: lines 937-940, enabled once the wait group's counter is zero;
  \<^item> \<open>Main prefer_done\<close>: the \<^verbatim>\<open>select\<close> of lines 966-971 and, when a case is ready, the
    return with its deferred calls; when both cases are ready Go picks either, and
    \<open>prefer_done\<close> says which.
  An event whose goroutine is blocked or has exited changes nothing. The run ends when
  \<^verbatim>\<open>CheckAuth\<close> returns or a goroutine panics (a panic in any goroutine ends the
  program); a schedule that ends before that gives \<open>Unfinished\<close>.
\<close>

datatype event = Task nat | Waiter | Main bool

datatype outcome = Returned authResponse | Panicked panic | Unfinished

record run_state =
  goroutines :: "ref option list"
  exited :: "nat list"
  wg :: nat
  response_channel :: "authResponse option"
  done_closed :: bool
  waiter_exited :: bool
  default_response :: authResponse

text \<open>Lines 911-914: the slice is made with length \<open>len(engine.root_role.Subroles)\<close>, so
  it starts with that many \<^verbatim>\<open>nil\<close> entries, and every subrole of the root is appended.\<close>

definition CheckAuth_roles :: "Role \<Rightarrow> ref option list" where
  "CheckAuth_roles root = replicate (length (Subroles root)) None @ map Some (Subroles root)"

text \<open>Lines 904-909 and 923-932: the state before any goroutine has run. The wait group
  counts \<open>len(roles)\<close>; the response channel has room for one response and is empty.\<close>

definition CheckAuth_init :: "Role \<Rightarrow> run_state" where
  "CheckAuth_init root =
     \<lparr>goroutines = CheckAuth_roles root, exited = [], wg = length (CheckAuth_roles root),
      response_channel = None, done_closed = False, waiter_exited = False,
      default_response = \<lparr>Auth = False, Role_ID = None, PermissionGranting = None,
                           PermissionsMismatching = []\<rparr>\<rparr>"

text \<open>Lines 943-961. Modelled from the spec: \<^verbatim>\<open>validate\<close> reads the permission set of the
  role it is called on, so on a \<^verbatim>\<open>nil\<close> role the read panics. A goroutine that grants
  while the channel's one slot is taken blocks on the send.\<close>

definition task_step :: "heap \<Rightarrow> authRequest \<Rightarrow> nat \<Rightarrow> run_state \<Rightarrow> panic + run_state" where
  "task_step h request i rs =
     (if length (goroutines rs) \<le> i \<or> i \<in> set (exited rs) then Inr rs
      else
        (case goroutines rs ! i of
           None \<Rightarrow> Inl NilDereference
         | Some role \<Rightarrow>
             (case role_objs h role of
                None \<Rightarrow> Inl NilDereference
              | Some r \<Rightarrow>
                  (let role_response = validate h role (req_Action request) (req_Constraints request)
                   in if Auth role_response
                      then (case response_channel rs of
                              Some waiting \<Rightarrow> Inr rs
                            | None \<Rightarrow>
                                Inr (rs\<lparr>response_channel := Some
                                           \<lparr>Auth = True, Role_ID = Some (role_ID r),
                                            PermissionGranting = PermissionGranting role_response,
                                            PermissionsMismatching = []\<rparr>,
                                        wg := wg rs - 1, exited := i # exited rs\<rparr>))
                      else Inr (rs\<lparr>default_response := (default_response rs)
                                     \<lparr>PermissionsMismatching :=
                                        PermissionsMismatching (default_response rs)
                                        @ PermissionsMismatching role_response\<rparr>,
                                   wg := wg rs - 1, exited := i # exited rs\<rparr>)))))"

text \<open>\<^verbatim>\<open>close(done_channel)\<close>: closing a closed channel panics.\<close>

definition close_done_channel :: "run_state \<Rightarrow> panic + run_state" where
  "close_done_channel rs =
     (if done_closed rs then Inl CloseOfClosedChannel else Inr (rs\<lparr>done_closed := True\<rparr>))"

text \<open>Lines 937-940.\<close>

definition waiter_step :: "run_state \<Rightarrow> panic + run_state" where
  "waiter_step rs =
     (if waiter_exited rs \<or> wg rs \<noteq> 0 then Inr rs
      else (case close_done_channel rs of
              Inl p \<Rightarrow> Inl p
            | Inr rs' \<Rightarrow> Inr (rs'\<lparr>waiter_exited := True\<rparr>)))"

text \<open>A return of \<^verbatim>\<open>CheckAuth\<close> runs the deferred calls, last deferred first:
  \<^verbatim>\<open>close(done_channel)\<close> (line 933), then \<^verbatim>\<open>close(response_channel)\<close> (line 924). Nothing
  else closes the response channel, so only the first call can panic; a panic in a
  deferred call replaces the return.\<close>

definition return_deferred :: "authResponse \<Rightarrow> run_state \<Rightarrow> outcome" where
  "return_deferred response rs =
     (case close_done_channel rs of
        Inl p \<Rightarrow> Panicked p
      | Inr rs' \<Rightarrow> Returned response)"

text \<open>Lines 966-971. \<open>None\<close>: neither case is ready, the select blocks.\<close>

definition main_step :: "bool \<Rightarrow> run_state \<Rightarrow> outcome option" where
  "main_step prefer_done rs =
     (case response_channel rs of
        Some response \<Rightarrow>
          (if done_closed rs \<and> prefer_done
           then Some (return_deferred (default_response rs) rs)
           else Some (return_deferred response rs))
      | None \<Rightarrow>
          (if done_closed rs then Some (return_deferred (default_response rs) rs) else None))"

fun run :: "heap \<Rightarrow> authRequest \<Rightarrow> event list \<Rightarrow> run_state \<Rightarrow> outcome" where
  "run h request [] rs = Unfinished"
| "run h request (Task i # schedule) rs =
     (case task_step h request i rs of
        Inl p \<Rightarrow> Panicked p
      | Inr rs' \<Rightarrow> run h request schedule rs')"
| "run h request (Waiter # schedule) rs =
     (case waiter_step rs of
        Inl p \<Rightarrow> Panicked p
      | Inr rs' \<Rightarrow> run h request schedule rs')"
| "run h request (Main prefer_done # schedule) rs =
     (case main_step prefer_done rs of
        Some result \<Rightarrow> result
      | None \<Rightarrow> run h request schedule rs)"

definition CheckAuth :: "event list \<Rightarrow> state \<Rightarrow> authRequest \<Rightarrow> outcome" where
  "CheckAuth schedule s request =
     (case s of (h, engine) \<Rightarrow>
        (case role_objs h (root_role engine) of
           None \<Rightarrow> Panicked NilDereference
         | Some root \<Rightarrow> run h request schedule (CheckAuth_init root)))"

text \<open>For evaluating loads on concrete descriptions: the reading in which no identifier
  but the empty one is malformed.\<close>

definition none_malformed :: "string \<Rightarrow> bool" where
  "none_malformed ID = False"

text \<open>The engine a program starts from: \<^verbatim>\<open>NewAuthEngine\<close> on an empty store.\<close>

definition fresh_root :: ref where
  "fresh_root = 0"

definition fresh_engine :: AuthEngine where
  "fresh_engine = \<lparr>root_role = fresh_root, roles = [''root'' \<mapsto> fresh_root],
     resources = Map.empty, permissions = Map.empty, services = Map.empty\<rparr>"

definition fresh_heap :: heap where
  "fresh_heap = \<lparr>role_objs = [fresh_root \<mapsto>
        \<lparr>role_ID = ''root'', Tags = Map.empty, Permissions = [], Subroles = [],
         Parent = None\<rparr>],
     permission_objs = Map.empty, resource_objs = Map.empty, service_objs = Map.empty,
     next_ref = Suc 0\<rparr>"

definition fresh_state :: state where
  "fresh_state = (fresh_heap, fresh_engine)"

subsection \<open>What a load may change in the engine\<close>

text \<open>The engine \<open>e'\<close> extends \<open>e\<close>: the same root, the same resource and permission
  registries, and every role and service registered in \<open>e\<close> still registered, to the same
  object.\<close>

definition engine_extends :: "AuthEngine \<Rightarrow> AuthEngine \<Rightarrow> bool" where
  "engine_extends e e' =
     (permissions e' = permissions e \<and> resources e' = resources e \<and> root_role e' = root_role e
      \<and> roles e \<subseteq>\<^sub>m roles e' \<and> services e \<subseteq>\<^sub>m services e')"

subsection \<open>An example engine\<close>

text \<open>The spec's end-to-end scenario: the root-level role \<open>analyst\<close> with the permission
  \<open>p1\<close> to read \<open>/studies/1\<close> through the service \<open>data\<close>, without constraints; and the
  state that loading it into the fresh engine gives.\<close>

definition p1_JSON :: PermissionJSON where
  "p1_JSON = \<lparr>pj_ID = ''p1'',
     pj_Action = \<lparr>aj_Service = ''data'', aj_Resource = ''/studies/1'', aj_Method = ''read''\<rparr>,
     pj_Constraints = []\<rparr>"

definition analyst_JSON :: RoleJSON where
  "analyst_JSON = RoleJSON ''analyst'' [] [p1_JSON] []"

definition analyst_heap :: heap where
  "analyst_heap =
     \<lparr>role_objs = [1 \<mapsto> \<lparr>role_ID = ''analyst'', Tags = Map.empty, Permissions = [2],
                            Subroles = [], Parent = None\<rparr>,
                    0 \<mapsto> \<lparr>role_ID = ''root'', Tags = Map.empty, Permissions = [],
                            Subroles = [1], Parent = None\<rparr>],
      permission_objs = [2 \<mapsto> \<lparr>perm_ID = ''p1'',
          perm_Action = \<lparr>act_Service = Some 3, act_Resource = Some 4, act_Method = ''read''\<rparr>,
          perm_Constraints = [], rolesGranting = []\<rparr>],
      resource_objs = [4 \<mapsto> \<lparr>res_ID = ''/studies/1''\<rparr>],
      service_objs = [3 \<mapsto> \<lparr>svc_ID = ''data'', uriToResource = Map.empty\<rparr>],
      next_ref = 5\<rparr>"

definition analyst_engine :: AuthEngine where
  "analyst_engine =
     \<lparr>root_role = 0, roles = [''root'' \<mapsto> 0, ''analyst'' \<mapsto> 1], resources = Map.empty,
      permissions = Map.empty, services = [''data'' \<mapsto> 3]\<rparr>"

definition analyst_state :: state where
  "analyst_state = (analyst_heap, analyst_engine)"

text \<open>A request on that engine that names no role and asks for what \<open>p1\<close> permits.\<close>

definition request_no_roles :: authRequest where
  "request_no_roles = \<lparr>req_Roles = [],
     req_Action = \<lparr>act_Service = Some 3, act_Resource = Some 4, act_Method = ''read''\<rparr>,
     req_Constraints = []\<rparr>"

text \<open>Stand-ins for \<^verbatim>\<open>json.Unmarshal\<close>, for evaluating \<^verbatim>\<open>ParseRequest\<close>: one that decodes a
  body whose action names the resource \<open>path\<close> (the decoded resource is a new object) and
  reports the error \<open>err\<close>, and one for the body \<^verbatim>\<open>{}\<close>, which leaves the request at its
  zero value.\<close>

definition decode_resource ::
    "string \<Rightarrow> error option \<Rightarrow> string \<Rightarrow> heap \<Rightarrow> heap \<times> authRequest \<times> error option" where
  "decode_resource path err body h =
     (case NewResource path h of (h', decoded) \<Rightarrow>
        (h', \<lparr>req_Roles = [],
              req_Action = \<lparr>act_Service = None, act_Resource = Some decoded, act_Method = ''read''\<rparr>,
              req_Constraints = []\<rparr>, err))"


subsection \<open>What a load may change in the store\<close>

text \<open>The store \<open>h'\<close> keeps the roles of \<open>h\<close>: nothing was freed, and every role object
  allocated in \<open>h\<close> is unchanged. \<open>subroles_from n h role\<close>: every subrole of \<open>role\<close> was
  allocated at or after reference \<open>n\<close>.\<close>

definition roles_kept :: "heap \<Rightarrow> heap \<Rightarrow> bool" where
  "roles_kept h h' =
     (next_ref h \<le> next_ref h' \<and> (\<forall>r. r < next_ref h \<longrightarrow> role_objs h' r = role_objs h r))"

definition subroles_from :: "ref \<Rightarrow> heap \<Rightarrow> ref \<Rightarrow> bool" where
  "subroles_from n h role =
     (case role_objs h role of None \<Rightarrow> True | Some r \<Rightarrow> list_all (\<lambda>c. n \<le> c) (Subroles r))"

subsection \<open>Role descriptions\<close>

text \<open>The identifiers of a description, depth first; whether one of a list of identifiers
  is registered; and the descriptions in which every identifier is accepted by
  \<^verbatim>\<open>NewRole\<close> and every action by \<^verbatim>\<open>validateFields\<close>.\<close>

fun role_ids :: "RoleJSON \<Rightarrow> string list" where
  "role_ids (RoleJSON ID tags perms subs) = ID # concat (map role_ids subs)"

definition registered_in :: "AuthEngine \<Rightarrow> string list \<Rightarrow> bool" where
  "registered_in e ids = list_ex (\<lambda>ID. roles e ID \<noteq> None) ids"

fun validates :: "(string \<Rightarrow> bool) \<Rightarrow> RoleJSON \<Rightarrow> bool" where
  "validates malformed (RoleJSON ID tags perms subs) =
     (ID \<noteq> [] \<and> \<not> malformed ID \<and> list_all (\<lambda>p. validateFields (pj_Action p) = None) perms
      \<and> list_all (validates malformed) subs)"

text \<open>Two descriptions that cannot be loaded into the fresh engine. In the first, the
  permission \<open>p1\<close> and the subrole \<open>nurse\<close> are well formed and come before a subrole
  that takes the identifier of the root. In the second, a permission without a service
  comes before such a subrole.\<close>

definition partly_bad_JSON :: RoleJSON where
  "partly_bad_JSON =
     RoleJSON ''staff'' [] [p1_JSON] [RoleJSON ''nurse'' [] [] [], RoleJSON ''root'' [] [] []]"

definition invalid_p_JSON :: PermissionJSON where
  "invalid_p_JSON = \<lparr>pj_ID = ''p2'',
     pj_Action = \<lparr>aj_Service = [], aj_Resource = ''/studies/1'', aj_Method = ''read''\<rparr>,
     pj_Constraints = []\<rparr>"

definition invalid_action_JSON :: RoleJSON where
  "invalid_action_JSON = RoleJSON ''staff'' [] [invalid_p_JSON] [RoleJSON ''root'' [] [] []]"

subsection \<open>The outcome of a load\<close>

text \<open>What a load registers and how it ends, as a function of the description and of the
  identifiers registered before it, following the loader's checks in their order
  (lines 703-734, 772, 790): at a node, the identifier is looked up in the registry, then
  handed to \<^verbatim>\<open>NewRole\<close>, then every permission's action is validated and resolved in
  turn, then the subroles are loaded in turn, and the node is registered last. The
  result holds the identifiers registered afterwards, the services resolved on the way, and
  the error the load stops with (\<open>None\<close> when it succeeds).\<close>

definition registered :: "AuthEngine \<Rightarrow> string \<Rightarrow> bool" where
  "registered e ID = (roles e ID \<noteq> None)"

fun actions_outcome :: "PermissionJSON list \<Rightarrow> string list \<times> error option" where
  "actions_outcome [] = ([], None)"
| "actions_outcome (permissionJSON # rest) =
     (case validateFields (pj_Action permissionJSON) of
        Some err \<Rightarrow> ([], Some err)
      | None \<Rightarrow>
          (case actions_outcome rest of
             (resolved, result) \<Rightarrow> (aj_Service (pj_Action permissionJSON) # resolved, result)))"

fun load_outcome ::
    "(string \<Rightarrow> bool) \<Rightarrow> (string \<Rightarrow> bool) \<Rightarrow> RoleJSON
       \<Rightarrow> (string \<Rightarrow> bool) \<times> string list \<times> error option"
  and subroles_outcome ::
    "(string \<Rightarrow> bool) \<Rightarrow> (string \<Rightarrow> bool) \<Rightarrow> RoleJSON list
       \<Rightarrow> (string \<Rightarrow> bool) \<times> string list \<times> error option" where
  "load_outcome malformed known (RoleJSON ID tags perms subs) =
     (if known ID then (known, [], Some RoleAlreadyExists)
      else if ID = [] \<or> malformed ID then (known, [], Some InvalidIdentifier)
      else
        (case actions_outcome perms of
           (resolved, Some err) \<Rightarrow> (known, resolved, Some err)
         | (resolved, None) \<Rightarrow>
             (case subroles_outcome malformed known subs of
                (known', resolved', Some err) \<Rightarrow> (known', resolved @ resolved', Some err)
              | (known', resolved', None) \<Rightarrow>
                  (known'(ID := True), resolved @ resolved', None))))"
| "subroles_outcome malformed known [] = (known, [], None)"
| "subroles_outcome malformed known (subroleJSON # rest) =
     (case load_outcome malformed known subroleJSON of
        (known', resolved, Some err) \<Rightarrow> (known', resolved, Some err)
      | (known', resolved, None) \<Rightarrow>
          (case subroles_outcome malformed known' rest of
             (known'', resolved', result) \<Rightarrow> (known'', resolved @ resolved', result)))"

definition error_of :: "error + ref \<Rightarrow> error option" where
  "error_of result = (case result of Inl err \<Rightarrow> Some err | Inr role \<Rightarrow> None)"

text \<open>More descriptions that cannot be loaded. One with the empty identifier above a
  subrole that takes the identifier of the root; one in which such a subrole comes
  before a subrole with the empty identifier; and, for the engine that holds
  \<open>analyst\<close>, one whose permission names a new service \<open>billing\<close> and whose second
  subrole takes the identifier \<open>analyst\<close>.\<close>

definition empty_identifier_JSON :: RoleJSON where
  "empty_identifier_JSON = RoleJSON [] [] [] [RoleJSON ''root'' [] [] []]"

definition duplicate_first_JSON :: RoleJSON where
  "duplicate_first_JSON =
     RoleJSON ''staff'' [] [] [RoleJSON ''root'' [] [] [], RoleJSON [] [] [] []]"

definition billing_JSON :: PermissionJSON where
  "billing_JSON = \<lparr>pj_ID = ''p3'',
     pj_Action = \<lparr>aj_Service = ''billing'', aj_Resource = ''/invoices'', aj_Method = ''read''\<rparr>,
     pj_Constraints = []\<rparr>"

definition second_analyst_JSON :: RoleJSON where
  "second_analyst_JSON =
     RoleJSON ''staff'' [] [billing_JSON]
       [RoleJSON ''nurse'' [] [] [], RoleJSON ''analyst'' [] [] []]"


section \<open>Properties\<close>

lemma NewAuthEngine_fresh:
  "\<not> malformed ''root'' \<Longrightarrow> NewAuthEngine malformed empty_heap = (fresh_heap, Inr fresh_engine)"
  by (simp add: NewAuthEngine_def NewRole_def empty_heap_def fresh_heap_def fresh_engine_def
      fresh_root_def)

subsection \<open>The fresh engine and the example\<close>

lemma load_analyst:
  "\<not> malformed ''analyst'' \<Longrightarrow>
   LoadRoleFromJSON malformed analyst_JSON fresh_state = (analyst_state, None)"
  by (simp add: LoadRoleFromJSON_def analyst_JSON_def p1_JSON_def fresh_state_def fresh_heap_def
      fresh_engine_def fresh_root_def NewRole_def copyTags_def LoadPermissionFromJSON_def
      newPermission_def actionFromJSON_def validateFields_def findOrCreateService_def
      findOrCreateResource_def NewService_def NewResource_def update_permission_def newAction_def
      update_role_def insert_ref_def linkSubroles_def addNewRootNode_def analyst_state_def
      analyst_heap_def analyst_engine_def eval_nat_numeral)


subsection \<open>The engine's registries under the loader\<close>

lemma engine_extends_refl: "engine_extends e e"
  by (simp add: engine_extends_def)

lemma engine_extends_trans:
  "engine_extends e1 e2 \<Longrightarrow> engine_extends e2 e3 \<Longrightarrow> engine_extends e1 e3"
  unfolding engine_extends_def by (auto intro: map_le_trans)

lemma findOrCreateService_extends:
  "engine_extends (snd s) (snd (fst (findOrCreateService ID s)))"
  by (auto simp: findOrCreateService_def engine_extends_def NewService_def map_le_def
      split: prod.splits option.splits)

lemma findOrCreateResource_engine: "snd (fst (findOrCreateResource ID s)) = snd s"
  by (auto simp: findOrCreateResource_def NewResource_def split: prod.splits option.splits)

lemma actionFromJSON_extends: "engine_extends (snd s) (snd (fst (actionFromJSON aj s)))"
proof (cases "validateFields aj")
  case None
  obtain s1 service where 1: "findOrCreateService (aj_Service aj) s = (s1, service)"
    by (cases "findOrCreateService (aj_Service aj) s")
  obtain s2 resource where 2: "findOrCreateResource (aj_Resource aj) s1 = (s2, resource)"
    by (cases "findOrCreateResource (aj_Resource aj) s1")
  have "engine_extends (snd s) (snd s1)"
    using findOrCreateService_extends [of s "aj_Service aj"] 1 by simp
  moreover have "snd s2 = snd s1"
    using findOrCreateResource_engine [of "aj_Resource aj" s1] 2 by simp
  ultimately show ?thesis using None 1 2 by (simp add: actionFromJSON_def)
next
  case (Some err)
  then show ?thesis by (simp add: actionFromJSON_def engine_extends_refl)
qed

lemma LoadPermissionFromJSON_extends:
  "engine_extends (snd s) (snd (fst (LoadPermissionFromJSON pj s)))"
proof -
  obtain h engine where s: "s = (h, engine)" by (cases s)
  obtain h1 permission where 1: "newPermission (pj_ID pj) h = (h1, permission)"
    by (cases "newPermission (pj_ID pj) h")
  obtain s2 res where 2: "actionFromJSON (pj_Action pj) (h1, engine) = (s2, res)"
    by (cases "actionFromJSON (pj_Action pj) (h1, engine)")
  have e: "engine_extends engine (snd s2)"
    using actionFromJSON_extends [of "(h1, engine)" "pj_Action pj"] 2 by simp
  show ?thesis
    using s 1 2 e by (cases res; cases s2) (simp_all add: LoadPermissionFromJSON_def)
qed

lemma loadPermissions_extends:
  "engine_extends (snd s) (snd (fst (loadPermissions pjs role s)))"
proof (induction pjs arbitrary: s)
  case Nil
  then show ?case by (simp add: engine_extends_refl)
next
  case (Cons pj pjs)
  obtain s' res where 1: "LoadPermissionFromJSON pj s = (s', res)"
    by (cases "LoadPermissionFromJSON pj s")
  have e: "engine_extends (snd s) (snd s')"
    using LoadPermissionFromJSON_extends [of s pj] 1 by simp
  show ?case
  proof (cases res)
    case (Inl err)
    with 1 e show ?thesis by simp
  next
    case (Inr permission)
    obtain h' engine' where s': "s' = (h', engine')" by (cases s')
    let ?s2 = "(update_role role (\<lambda>r. r\<lparr>Permissions := insert_ref permission (Permissions r)\<rparr>) h', engine')"
    have "engine_extends (snd ?s2) (snd (fst (loadPermissions pjs role ?s2)))"
      by (rule Cons.IH)
    with e s' have "engine_extends (snd s) (snd (fst (loadPermissions pjs role ?s2)))"
      by (auto intro: engine_extends_trans)
    with 1 Inr s' show ?thesis by simp
  qed
qed

lemma recursivelyLoad_extends:
  "engine_extends (snd s) (snd (fst (recursivelyLoadRoleFromJSON malformed rj s)))"
  "engine_extends (snd s) (snd (fst (loadSubroles malformed rjs role s)))"
proof (induction malformed rj s and malformed rjs role s
    rule: recursivelyLoadRoleFromJSON_loadSubroles.induct)
  case (1 malformed ID tags perms subs s)
  obtain h engine where s: "s = (h, engine)" by (cases s)
  show ?case
  proof (cases "roles engine ID")
    case (Some existing)
    with s show ?thesis by (simp add: engine_extends_refl)
  next
    case None
    obtain h1 r1 where n: "NewRole malformed ID h = (h1, r1)" by (cases "NewRole malformed ID h")
    show ?thesis
    proof (cases r1)
      case (Inl err)
      with s None n show ?thesis by (simp add: engine_extends_refl)
    next
      case (Inr role)
      obtain s2 r2 where p: "loadPermissions perms role (copyTags tags role h1, engine) = (s2, r2)"
        by (cases "loadPermissions perms role (copyTags tags role h1, engine)")
      have e2: "engine_extends engine (snd s2)"
        using loadPermissions_extends [of "(copyTags tags role h1, engine)" perms role] p by simp
      show ?thesis
      proof (cases r2)
        case (Some err)
        with s None n Inr p e2 show ?thesis by simp
      next
        case None2: None
        obtain s3 r3 where l: "loadSubroles malformed subs role s2 = (s3, r3)"
          by (cases "loadSubroles malformed subs role s2")
        have "engine_extends (snd s2) (snd (fst (loadSubroles malformed subs role s2)))"
          using "1.IH" [OF s [symmetric] None n [symmetric] Inr p [symmetric] None2] .
        with l have e3: "engine_extends (snd s2) (snd s3)" by simp
        with e2 have e: "engine_extends engine (snd s3)" by (rule engine_extends_trans)
        show ?thesis
        proof (cases r3)
          case (Some err)
          with s None n Inr p None2 l e show ?thesis by simp
        next
          case None3: None
          obtain h3 engine3 where s3: "s3 = (h3, engine3)" by (cases s3)
          have "engine_extends engine (engine3\<lparr>roles := (roles engine3)(ID \<mapsto> role)\<rparr>)"
            using e s3 None unfolding engine_extends_def map_le_def by (auto simp: dom_def)
          with s None n Inr p None2 l None3 s3 show ?thesis by simp
        qed
      qed
    qed
  qed
next
  case (2 malformed role s)
  then show ?case by (simp add: engine_extends_refl)
next
  case (3 malformed subroleJSON rest role s)
  obtain s' res where 1: "recursivelyLoadRoleFromJSON malformed subroleJSON s = (s', res)"
    by (cases "recursivelyLoadRoleFromJSON malformed subroleJSON s")
  have e: "engine_extends (snd s) (snd s')" using "3.IH"(1) 1 by simp
  show ?case
  proof (cases res)
    case (Inl err)
    with 1 e show ?thesis by simp
  next
    case (Inr subrole)
    obtain h' engine' where s': "s' = (h', engine')" by (cases s')
    let ?s2 = "(update_role role (\<lambda>r. r\<lparr>Subroles := insert_ref subrole (Subroles r)\<rparr>) h', engine')"
    have "engine_extends (snd ?s2) (snd (fst (loadSubroles malformed rest role ?s2)))"
      using "3.IH"(2) [OF 1 [symmetric] s' [symmetric] Inr] .
    with e s' have "engine_extends (snd s) (snd (fst (loadSubroles malformed rest role ?s2)))"
      by (auto intro: engine_extends_trans)
    with 1 Inr s' show ?thesis by simp
  qed
qed


lemma loadURIs_engine: "snd (loadURIs uris service s) = snd s"
proof (induction uris arbitrary: s)
  case Nil
  then show ?case by simp
next
  case (Cons a uris)
  obtain uri resource_name where a: "a = (uri, resource_name)" by (cases a)
  obtain h' engine' resource where
    f: "findOrCreateResource resource_name s = ((h', engine'), resource)"
    by (cases "findOrCreateResource resource_name s") auto
  have "engine' = snd s" using findOrCreateResource_engine [of resource_name s] f by simp
  with a f show ?case by (simp add: Cons.IH)
qed

lemma LoadServiceFromJSON_permissions:
  "permissions (snd (fst (LoadServiceFromJSON sj s))) = permissions (snd s)"
proof -
  obtain h engine where s: "s = (h, engine)" by (cases s)
  obtain h1 service where n: "NewService (sj_ID sj) h = (h1, service)"
    by (cases "NewService (sj_ID sj) h")
  obtain h2 engine2 where l: "loadURIs (sj_URIsToResources sj) service (h1, engine) = (h2, engine2)"
    by (cases "loadURIs (sj_URIsToResources sj) service (h1, engine)")
  have "engine2 = engine"
    using loadURIs_engine [of "sj_URIsToResources sj" service "(h1, engine)"] l by simp
  with s n l show ?thesis by (simp add: LoadServiceFromJSON_def)
qed

lemma LoadRoleFromJSON_extends:
  "engine_extends (snd s) (snd (fst (LoadRoleFromJSON malformed rj s)))"
proof -
  obtain s' res where 1: "recursivelyLoadRoleFromJSON malformed rj s = (s', res)"
    by (cases "recursivelyLoadRoleFromJSON malformed rj s")
  have e: "engine_extends (snd s) (snd s')" using recursivelyLoad_extends(1) [of s malformed rj] 1 by simp
  show ?thesis using 1 e
    by (cases res; cases s') (simp_all add: LoadRoleFromJSON_def addNewRootNode_def)
qed

lemma updateRoleWithJSON_extends:
  "engine_extends (snd s) (snd (fst (updateRoleWithJSON malformed roleID rj s)))"
proof -
  obtain s' res where 1: "recursivelyLoadRoleFromJSON malformed rj s = (s', res)"
    by (cases "recursivelyLoadRoleFromJSON malformed rj s")
  have e: "engine_extends (snd s) (snd s')" using recursivelyLoad_extends(1) [of s malformed rj] 1 by simp
  show ?thesis using 1 e
    by (cases res; cases s'; cases "FindRoleNamed (snd s) roleID")
      (simp_all add: updateRoleWithJSON_def)
qed

lemma apply_op_permissions: "permissions (snd (apply_op malformed op s)) = permissions (snd s)"
proof (cases op)
  case (OpLoadRole rj)
  then show ?thesis using LoadRoleFromJSON_extends [of s malformed rj] by (simp add: engine_extends_def)
next
  case (OpUpdateRole roleID rj)
  then show ?thesis using updateRoleWithJSON_extends [of s malformed roleID rj]
    by (simp add: engine_extends_def)
next
  case (OpLoadService sj)
  then show ?thesis by (simp add: LoadServiceFromJSON_permissions)
next
  case (OpLoadPermission pj)
  then show ?thesis using LoadPermissionFromJSON_extends [of s pj]
    by (simp add: engine_extends_def)
qed

lemma run_ops_permissions: "permissions (snd (run_ops malformed ops s)) = permissions (snd s)"
  unfolding run_ops_def by (induction ops arbitrary: s) (simp_all add: apply_op_permissions)


text \<open>
  Claim C10. Starting from a fresh engine (\<^verbatim>\<open>NewAuthEngine\<close>), the permission registry is
  empty after every sequence of load operations: \<^verbatim>\<open>LoadPermissionFromJSON\<close> returns the
  permission it builds without storing it in \<^verbatim>\<open>engine.permissions\<close>, and neither
  \<^verbatim>\<open>LoadRoleFromJSON\<close>, \<^verbatim>\<open>updateRoleWithJSON\<close> nor \<^verbatim>\<open>LoadServiceFromJSON\<close> changes that
  registry, from any state.
\<close>

theorem permissions_registry_stays_empty:
  assumes "NewAuthEngine malformed empty_heap = (h, Inr engine)"
  shows "permissions (snd (run_ops malformed ops (h, engine))) = Map.empty
    \<and> permissions (snd (fst (LoadPermissionFromJSON permissionJSON s))) = permissions (snd s)
    \<and> permissions (snd (fst (LoadRoleFromJSON malformed roleJSON s))) = permissions (snd s)
    \<and> permissions (snd (fst (updateRoleWithJSON malformed roleID roleJSON s))) = permissions (snd s)
    \<and> permissions (snd (fst (LoadServiceFromJSON serviceJSON s))) = permissions (snd s)"
proof -
  from assms have "permissions engine = Map.empty"
    by (auto simp: NewAuthEngine_def NewRole_def split: prod.splits sum.splits if_splits)
  then have "permissions (snd (run_ops malformed ops (h, engine))) = Map.empty"
    by (simp add: run_ops_permissions)
  moreover have "permissions (snd (fst (LoadPermissionFromJSON permissionJSON s))) = permissions (snd s)"
    using apply_op_permissions [of malformed "OpLoadPermission permissionJSON" s] by simp
  moreover have "permissions (snd (fst (LoadRoleFromJSON malformed roleJSON s))) = permissions (snd s)"
    using apply_op_permissions [of malformed "OpLoadRole roleJSON" s] by simp
  moreover have "permissions (snd (fst (updateRoleWithJSON malformed roleID roleJSON s))) = permissions (snd s)"
    using apply_op_permissions [of malformed "OpUpdateRole roleID roleJSON" s] by simp
  moreover have "permissions (snd (fst (LoadServiceFromJSON serviceJSON s))) = permissions (snd s)"
    using apply_op_permissions [of malformed "OpLoadService serviceJSON" s] by simp
  ultimately show ?thesis by simp
qed


theorem permissions_registry_stays_empty_witness:
  "NewAuthEngine none_malformed empty_heap = (fresh_heap, Inr fresh_engine)
   \<and> permissions (snd (run_ops none_malformed [OpLoadRole analyst_JSON, OpLoadPermission p1_JSON]
        (fresh_heap, fresh_engine))) = Map.empty"
proof -
  have f: "NewAuthEngine none_malformed empty_heap = (fresh_heap, Inr fresh_engine)"
    by (rule NewAuthEngine_fresh) (simp add: none_malformed_def)
  from permissions_registry_stays_empty [OF f] f show ?thesis by simp
qed


subsection \<open>Find-or-create\<close>

text \<open>
  Claim C3, evaluated on the fresh engine. Two calls of \<^verbatim>\<open>findOrCreateResource\<close> with the
  identifier \<open>/a\<close> return two different objects (references 1 and 2), and the resource is
  registered after neither call. Two calls of \<^verbatim>\<open>findOrCreateService\<close> return the same,
  registered object.
\<close>

theorem findOrCreateResource_not_idempotent:
  "(case findOrCreateResource ''/a'' fresh_state of (s1, first) \<Rightarrow>
      (case findOrCreateResource ''/a'' s1 of (s2, second) \<Rightarrow>
         first = 1 \<and> second = 2 \<and> first \<noteq> second
         \<and> findResource (snd s1) ''/a'' = None \<and> findResource (snd s2) ''/a'' = None))
   \<and> (case findOrCreateService ''data'' fresh_state of (s1, first) \<Rightarrow>
      (case findOrCreateService ''data'' s1 of (s2, second) \<Rightarrow>
         first = second \<and> FindServiceNamed (snd s2) ''data'' = Some first))"
  by (simp add: findOrCreateResource_def findOrCreateService_def fresh_state_def fresh_heap_def
      fresh_engine_def NewResource_def NewService_def findResource_def FindServiceNamed_def)

subsection \<open>Parsing a request\<close>




text \<open>
  Claim C7, as stated, fails: on the fresh engine a request whose resource \<open>/unknown\<close> is
  not registered is not rejected. \<^verbatim>\<open>ParseRequest\<close> returns the request, its resource
  \<^verbatim>\<open>nil\<close>, with no error at all.
\<close>

theorem ParseRequest_unresolved_not_rejected:
  "findResource fresh_engine ''/unknown'' = None
   \<and> snd (ParseRequest (decode_resource ''/unknown'' None) ''body'' fresh_state) =
       Inr (\<lparr>req_Roles = [],
              req_Action = \<lparr>act_Service = None, act_Resource = None, act_Method = ''read''\<rparr>,
              req_Constraints = []\<rparr>, None)"
  by (simp add: ParseRequest_def decode_resource_def NewResource_def fresh_state_def
      fresh_heap_def fresh_engine_def findResource_def)

text \<open>
  Claim C7, amended. For every body whose decoded action names a resource that the engine
  cannot resolve, \<^verbatim>\<open>ParseRequest\<close> returns the request with its resource set to \<^verbatim>\<open>nil\<close>,
  paired with the error of \<^verbatim>\<open>json.Unmarshal\<close> alone (\<^verbatim>\<open>nil\<close> when the body decoded), and
  leaves the engine as it was: the unresolved resource is no error of its own.
\<close>

theorem ParseRequest_unresolved_resource:
  assumes "unmarshal body h = (h', request, err)"
    and "act_Resource (req_Action request) = Some decoded"
    and "resource_objs h' decoded = Some resource"
    and "findResource engine (res_ID resource) = None"
  shows "ParseRequest unmarshal body (h, engine) =
     ((h', engine),
      Inr (request\<lparr>req_Action := (req_Action request)\<lparr>act_Resource := None\<rparr>\<rparr>, err))"
  using assms by (simp add: ParseRequest_def)

theorem ParseRequest_unresolved_resource_witness:
  "findResource fresh_engine ''/unknown'' = None
   \<and> ParseRequest (decode_resource ''/unknown'' None) ''body'' (fresh_heap, fresh_engine) =
       ((fst (NewResource ''/unknown'' fresh_heap), fresh_engine),
        Inr (\<lparr>req_Roles = [],
              req_Action = \<lparr>act_Service = None, act_Resource = None, act_Method = ''read''\<rparr>,
              req_Constraints = []\<rparr>, None))"
proof -
  have f: "findResource fresh_engine ''/unknown'' = None"
    by (simp add: findResource_def fresh_engine_def)
  have u: "decode_resource ''/unknown'' None ''body'' fresh_heap =
     (fst (NewResource ''/unknown'' fresh_heap), \<lparr>req_Roles = [],
              req_Action = \<lparr>act_Service = None, act_Resource = Some 1, act_Method = ''read''\<rparr>,
              req_Constraints = []\<rparr>, None)"
    by (simp add: decode_resource_def NewResource_def fresh_heap_def)
  have r: "resource_objs (fst (NewResource ''/unknown'' fresh_heap)) 1 = Some \<lparr>res_ID = ''/unknown''\<rparr>"
    by (simp add: NewResource_def fresh_heap_def)
  have a: "act_Resource (req_Action \<lparr>req_Roles = [],
              req_Action = \<lparr>act_Service = None, act_Resource = Some 1, act_Method = ''read''\<rparr>,
              req_Constraints = []\<rparr>) = Some 1"
    by simp
  have f': "findResource fresh_engine (res_ID \<lparr>res_ID = ''/unknown''\<rparr>) = None"
    using f by simp
  show ?thesis
    using ParseRequest_unresolved_resource
      [of "decode_resource ''/unknown'' None" "''body''" fresh_heap, OF u a r f'] f
    by simp
qed

subsection \<open>The permission registry and the roles that grant\<close>

text \<open>
  Claim C6, evaluated on the fresh engine, whatever identifiers are malformed as long as
  \<open>analyst\<close> is not. After the role \<open>analyst\<close> with the permission
  \<open>p1\<close> has been loaded, the role is registered and holds \<open>p1\<close>, and \<open>p1\<close> is not in the
  permission registry; the permission's own set of granting roles is empty, the loader
  never writes it. Detaching the role panics: a role loaded under the root has no
  parent pointer.
\<close>

theorem granted_permission_not_registered:
  assumes "\<not> malformed ''analyst''"
  shows "LoadRoleFromJSON malformed analyst_JSON fresh_state = ((analyst_heap, analyst_engine), None)
   \<and> FindRoleNamed analyst_engine ''analyst'' = Some 1
   \<and> map_option Permissions (role_objs analyst_heap 1) = Some [2]
   \<and> map_option perm_ID (permission_objs analyst_heap 2) = Some ''p1''
   \<and> permissions analyst_engine ''p1'' = None
   \<and> map_option rolesGranting (permission_objs analyst_heap 2) = Some []
   \<and> snd (detachRole 1 (analyst_heap, analyst_engine)) = Some NilDereference
   \<and> snd (detachRoleRecursively 1 (analyst_heap, analyst_engine)) = Some NilDereference"
  using load_analyst [of malformed] assms
  by (simp add: analyst_state_def FindRoleNamed_def analyst_engine_def analyst_heap_def
      detachRole_def detachRoleRecursively_def)

theorem granted_permission_not_registered_witness:
  "\<not> none_malformed ''analyst''
   \<and> LoadRoleFromJSON none_malformed analyst_JSON fresh_state =
       ((analyst_heap, analyst_engine), None)
   \<and> FindRoleNamed analyst_engine ''analyst'' = Some 1
   \<and> map_option Permissions (role_objs analyst_heap 1) = Some [2]
   \<and> map_option perm_ID (permission_objs analyst_heap 2) = Some ''p1''
   \<and> permissions analyst_engine ''p1'' = None
   \<and> map_option rolesGranting (permission_objs analyst_heap 2) = Some []
   \<and> snd (detachRole 1 (analyst_heap, analyst_engine)) = Some NilDereference
   \<and> snd (detachRoleRecursively 1 (analyst_heap, analyst_engine)) = Some NilDereference"
proof -
  have n: "\<not> none_malformed ''analyst''" by (simp add: none_malformed_def)
  from granted_permission_not_registered [of none_malformed] n show ?thesis by simp
qed

subsection \<open>The evaluator\<close>

lemma analyst_root:
  "role_objs analyst_heap (root_role analyst_engine) =
     Some \<lparr>role_ID = ''root'', Tags = Map.empty, Permissions = [], Subroles = [1], Parent = None\<rparr>"
  by (simp add: analyst_heap_def analyst_engine_def)

lemma analyst_role:
  "role_objs analyst_heap 1 =
     Some \<lparr>role_ID = ''analyst'', Tags = Map.empty, Permissions = [2], Subroles = [], Parent = None\<rparr>"
  by (simp add: analyst_heap_def)

lemma validate_analyst:
  "validate analyst_heap 1 (req_Action request_no_roles) (req_Constraints request_no_roles)
   = \<lparr>Auth = True, Role_ID = None, PermissionGranting = Some 2, PermissionsMismatching = []\<rparr>"
  by (simp add: validate_def allSubroles_def analyst_heap_def request_no_roles_def
      permissions_of_def action_matches_def service_ID_of_def resource_ID_of_def
      resource_path_matches_def constraints_satisfied_def eval_nat_numeral)

lemma task_step_roles:
  "task_step h (request\<lparr>req_Roles := rs\<rparr>) i st = task_step h request i st"
  by (simp add: task_step_def Let_def cong: option.case_cong if_cong)

lemma run_roles: "run h (request\<lparr>req_Roles := rs\<rparr>) schedule st = run h request schedule st"
proof (induction schedule arbitrary: st)
  case Nil
  then show ?case by simp
next
  case (Cons ev schedule)
  then show ?case by (cases ev) (simp_all add: task_step_roles split: sum.splits option.splits)
qed

text \<open>
  Claim C1, evaluated. \<^verbatim>\<open>CheckAuth\<close> never reads the roles named in the request: its
  outcome is the same whatever they are. On the engine holding \<open>analyst\<close>, a request
  that names no role at all is granted through \<open>analyst\<close> when that role's goroutine
  runs first; when the goroutine of the slice's \<^verbatim>\<open>nil\<close> entry runs first, the program
  panics.
\<close>

theorem CheckAuth_ignores_request_roles:
  "CheckAuth schedule s (request\<lparr>req_Roles := named\<rparr>) = CheckAuth schedule s request
   \<and> req_Roles request_no_roles = []
   \<and> CheckAuth [Task 1, Main False] analyst_state request_no_roles =
       Returned \<lparr>Auth = True, Role_ID = Some ''analyst'', PermissionGranting = Some 2,
                 PermissionsMismatching = []\<rparr>
   \<and> CheckAuth [Task 0, Task 1, Main False] analyst_state request_no_roles =
       Panicked NilDereference"
proof -
  have 1: "CheckAuth schedule s (request\<lparr>req_Roles := named\<rparr>) = CheckAuth schedule s request"
    by (simp add: CheckAuth_def run_roles split: prod.splits option.splits)
  have 2: "req_Roles request_no_roles = []" by (simp add: request_no_roles_def)
  have v: "validate analyst_heap 1 (req_Action request_no_roles) (req_Constraints request_no_roles)
   = \<lparr>Auth = True, Role_ID = None, PermissionGranting = Some 2, PermissionsMismatching = []\<rparr>"
    by (rule validate_analyst)
  have 3: "CheckAuth [Task 1, Main False] analyst_state request_no_roles =
       Returned \<lparr>Auth = True, Role_ID = Some ''analyst'', PermissionGranting = Some 2,
                 PermissionsMismatching = []\<rparr>"
    using v analyst_root analyst_role
    by (simp add: CheckAuth_def analyst_state_def CheckAuth_init_def CheckAuth_roles_def
        task_step_def main_step_def return_deferred_def close_done_channel_def)
  have 4: "CheckAuth [Task 0, Task 1, Main False] analyst_state request_no_roles =
       Panicked NilDereference"
    using analyst_root
    by (simp add: CheckAuth_def analyst_state_def CheckAuth_init_def CheckAuth_roles_def
        task_step_def)
  from 1 2 3 4 show ?thesis by simp
qed

lemma run_no_goroutines:
  "goroutines st = [] \<Longrightarrow> response_channel st = None \<Longrightarrow>
   run h request schedule st = Unfinished \<or> run h request schedule st = Panicked CloseOfClosedChannel"
proof (induction schedule arbitrary: st)
  case Nil
  then show ?case by simp
next
  case (Cons ev schedule)
  show ?case
  proof (cases ev)
    case (Task i)
    with Cons show ?thesis by (simp add: task_step_def)
  next
    case Waiter
    show ?thesis
    proof (cases "waiter_step st")
      case (Inl p)
      then have "p = CloseOfClosedChannel"
        by (auto simp: waiter_step_def close_done_channel_def split: if_splits sum.splits)
      with Inl Waiter show ?thesis by simp
    next
      case (Inr st')
      then have "goroutines st' = []" "response_channel st' = None"
        using Cons.prems
        by (auto simp: waiter_step_def close_done_channel_def split: if_splits sum.splits)
      with Inr Waiter Cons.IH show ?thesis by simp
    qed
  next
    case (Main prefer_done)
    with Cons show ?thesis
      by (simp add: main_step_def return_deferred_def close_done_channel_def)
  qed
qed

lemma run_returns_only_grants:
  "(case response_channel st of None \<Rightarrow> True | Some waiting \<Rightarrow> Auth waiting) \<Longrightarrow>
   run h request schedule st = Returned response \<Longrightarrow> Auth response"
proof (induction schedule arbitrary: st)
  case Nil
  then show ?case by simp
next
  case (Cons ev schedule)
  show ?case
  proof (cases ev)
    case (Task i)
    show ?thesis
    proof (cases "task_step h request i st")
      case (Inl p)
      with Task Cons.prems show ?thesis by simp
    next
      case (Inr st')
      then have "case response_channel st' of None \<Rightarrow> True | Some waiting \<Rightarrow> Auth waiting"
        using Cons.prems(1)
        by (auto simp: task_step_def Let_def split: if_splits option.splits)
      with Inr Task Cons show ?thesis by simp
    qed
  next
    case Waiter
    show ?thesis
    proof (cases "waiter_step st")
      case (Inl p)
      with Waiter Cons.prems show ?thesis by simp
    next
      case (Inr st')
      then have "response_channel st' = response_channel st"
        by (auto simp: waiter_step_def close_done_channel_def split: if_splits)
      with Cons.prems(1)
      have "case response_channel st' of None \<Rightarrow> True | Some waiting \<Rightarrow> Auth waiting"
        by simp
      with Inr Waiter Cons show ?thesis by simp
    qed
  next
    case (Main prefer_done)
    show ?thesis
    proof (cases "main_step prefer_done st")
      case None
      with Main Cons show ?thesis by simp
    next
      case (Some result)
      with Main Cons.prems have "result = Returned response" by simp
      with Some Cons.prems(1) show ?thesis
        by (auto simp: main_step_def return_deferred_def close_done_channel_def
            split: option.splits if_splits)
    qed
  qed
qed

lemma CheckAuth_returns_only_grants:
  "CheckAuth schedule s request = Returned response \<Longrightarrow> Auth response"
  by (auto simp: CheckAuth_def CheckAuth_init_def split: prod.splits option.splits
      dest!: run_returns_only_grants [rotated])

text \<open>
  Claim C4, evaluated on the fresh engine, where no role holds any permission. Whatever
  the request and the schedule, \<^verbatim>\<open>CheckAuth\<close> returns nothing: it is still blocked in its
  \<^verbatim>\<open>select\<close>, or it has panicked. Once the waiting goroutine has closed \<^verbatim>\<open>done_channel\<close>
  the \<^verbatim>\<open>select\<close> takes the denying case, and the deferred \<^verbatim>\<open>close(done_channel)\<close> closes
  the channel a second time.
\<close>

theorem CheckAuth_deny_panics:
  "(CheckAuth schedule fresh_state request = Unfinished
      \<or> CheckAuth schedule fresh_state request = Panicked CloseOfClosedChannel)
   \<and> CheckAuth [Main prefer_done, Waiter] fresh_state request = Unfinished
   \<and> CheckAuth [Waiter, Main prefer_done] fresh_state request = Panicked CloseOfClosedChannel"
proof -
  have r: "role_objs fresh_heap (root_role fresh_engine) =
     Some \<lparr>role_ID = ''root'', Tags = Map.empty, Permissions = [], Subroles = [], Parent = None\<rparr>"
    by (simp add: fresh_heap_def fresh_engine_def)
  have "CheckAuth schedule fresh_state request = Unfinished
      \<or> CheckAuth schedule fresh_state request = Panicked CloseOfClosedChannel"
    using r run_no_goroutines [of "CheckAuth_init \<lparr>role_ID = ''root'', Tags = Map.empty, Permissions = [], Subroles = [], Parent = None\<rparr>" fresh_heap request schedule]
    by (simp add: CheckAuth_def fresh_state_def CheckAuth_init_def CheckAuth_roles_def)
  moreover have "CheckAuth [Main prefer_done, Waiter] fresh_state request = Unfinished"
    using r by (simp add: CheckAuth_def fresh_state_def CheckAuth_init_def CheckAuth_roles_def
        main_step_def waiter_step_def close_done_channel_def)
  moreover have "CheckAuth [Waiter, Main prefer_done] fresh_state request = Panicked CloseOfClosedChannel"
    using r by (simp add: CheckAuth_def fresh_state_def CheckAuth_init_def CheckAuth_roles_def
        main_step_def waiter_step_def close_done_channel_def return_deferred_def)
  ultimately show ?thesis by simp
qed

text \<open>
  Claim C8. For an engine whose root role has \<open>n \<ge> 1\<close> subroles, the slice of roles that
  \<^verbatim>\<open>CheckAuth\<close> builds has length \<open>2n\<close>; its first \<open>n\<close> entries are \<^verbatim>\<open>nil\<close> and the rest
  are the subroles. \<^verbatim>\<open>CheckAuth\<close> runs with one goroutine per entry of that slice and the
  wait group counts \<open>2n\<close>. The goroutine of each of the first \<open>n\<close> entries calls
  \<^verbatim>\<open>validate\<close> on the \<^verbatim>\<open>nil\<close> role and panics; the goroutine of entry \<open>n + i\<close> calls
  \<^verbatim>\<open>validate\<close> on the \<open>i\<close>-th subrole and either puts its grant in the response channel or
  appends its mismatching permissions to the default response, then counts the wait
  group down.
\<close>

theorem CheckAuth_roles_slice:
  assumes "role_objs h (root_role engine) = Some root"
    and "n = length (Subroles root)" and "1 \<le> n"
  shows "length (CheckAuth_roles root) = 2 * n
    \<and> take n (CheckAuth_roles root) = replicate n None
    \<and> drop n (CheckAuth_roles root) = map Some (Subroles root)
    \<and> goroutines (CheckAuth_init root) = CheckAuth_roles root
    \<and> wg (CheckAuth_init root) = 2 * n
    \<and> CheckAuth schedule (h, engine) request = run h request schedule (CheckAuth_init root)
    \<and> (\<forall>i. i < n \<longrightarrow>
          task_step h request i (CheckAuth_init root) = Inl NilDereference
          \<and> CheckAuth (Task i # schedule) (h, engine) request = Panicked NilDereference)
    \<and> (\<forall>i r. i < n \<longrightarrow> role_objs h (Subroles root ! i) = Some r \<longrightarrow>
          task_step h request (n + i) (CheckAuth_init root) =
            (if Auth (validate h (Subroles root ! i) (req_Action request) (req_Constraints request))
             then Inr ((CheckAuth_init root)
                    \<lparr>response_channel := Some
                       \<lparr>Auth = True, Role_ID = Some (role_ID r),
                        PermissionGranting = PermissionGranting
                          (validate h (Subroles root ! i) (req_Action request)
                             (req_Constraints request)),
                        PermissionsMismatching = []\<rparr>,
                     wg := 2 * n - 1, exited := [n + i]\<rparr>)
             else Inr ((CheckAuth_init root)
                    \<lparr>default_response :=
                       \<lparr>Auth = False, Role_ID = None, PermissionGranting = None,
                        PermissionsMismatching = PermissionsMismatching
                          (validate h (Subroles root ! i) (req_Action request)
                             (req_Constraints request))\<rparr>,
                     wg := 2 * n - 1, exited := [n + i]\<rparr>))
          \<and> CheckAuth (Task (n + i) # schedule) (h, engine) request =
              (case task_step h request (n + i) (CheckAuth_init root) of
                 Inl p \<Rightarrow> Panicked p
               | Inr rs \<Rightarrow> run h request schedule rs))"
proof -
  have basic: "length (CheckAuth_roles root) = 2 * n
    \<and> take n (CheckAuth_roles root) = replicate n None
    \<and> drop n (CheckAuth_roles root) = map Some (Subroles root)
    \<and> goroutines (CheckAuth_init root) = CheckAuth_roles root
    \<and> wg (CheckAuth_init root) = 2 * n
    \<and> CheckAuth schedule (h, engine) request = run h request schedule (CheckAuth_init root)"
    using assms by (simp add: CheckAuth_roles_def CheckAuth_init_def CheckAuth_def)
  have nil: "\<forall>i. i < n \<longrightarrow>
          task_step h request i (CheckAuth_init root) = Inl NilDereference
          \<and> CheckAuth (Task i # schedule) (h, engine) request = Panicked NilDereference"
    using assms
    by (simp add: task_step_def CheckAuth_init_def CheckAuth_roles_def CheckAuth_def nth_append)
  have real: "\<forall>i r. i < n \<longrightarrow> role_objs h (Subroles root ! i) = Some r \<longrightarrow>
          task_step h request (n + i) (CheckAuth_init root) =
            (if Auth (validate h (Subroles root ! i) (req_Action request) (req_Constraints request))
             then Inr ((CheckAuth_init root)
                    \<lparr>response_channel := Some
                       \<lparr>Auth = True, Role_ID = Some (role_ID r),
                        PermissionGranting = PermissionGranting
                          (validate h (Subroles root ! i) (req_Action request)
                             (req_Constraints request)),
                        PermissionsMismatching = []\<rparr>,
                     wg := 2 * n - 1, exited := [n + i]\<rparr>)
             else Inr ((CheckAuth_init root)
                    \<lparr>default_response :=
                       \<lparr>Auth = False, Role_ID = None, PermissionGranting = None,
                        PermissionsMismatching = PermissionsMismatching
                          (validate h (Subroles root ! i) (req_Action request)
                             (req_Constraints request))\<rparr>,
                     wg := 2 * n - 1, exited := [n + i]\<rparr>))
          \<and> CheckAuth (Task (n + i) # schedule) (h, engine) request =
              (case task_step h request (n + i) (CheckAuth_init root) of
                 Inl p \<Rightarrow> Panicked p
               | Inr rs \<Rightarrow> run h request schedule rs)"
    using assms
    by (simp add: task_step_def CheckAuth_init_def CheckAuth_roles_def CheckAuth_def nth_append
        Let_def mult_2)
  from basic nil real show ?thesis by blast
qed

theorem CheckAuth_roles_slice_witness:
  "role_objs analyst_heap (root_role analyst_engine) =
     Some \<lparr>role_ID = ''root'', Tags = Map.empty, Permissions = [], Subroles = [1], Parent = None\<rparr>
   \<and> CheckAuth_roles \<lparr>role_ID = ''root'', Tags = Map.empty, Permissions = [], Subroles = [1],
        Parent = None\<rparr> = [None, Some 1]
   \<and> wg (CheckAuth_init \<lparr>role_ID = ''root'', Tags = Map.empty, Permissions = [], Subroles = [1],
        Parent = None\<rparr>) = 2
   \<and> task_step analyst_heap request_no_roles 0
        (CheckAuth_init \<lparr>role_ID = ''root'', Tags = Map.empty, Permissions = [], Subroles = [1],
           Parent = None\<rparr>) = Inl NilDereference
   \<and> CheckAuth [Task 0] (analyst_heap, analyst_engine) request_no_roles = Panicked NilDereference
   \<and> task_step analyst_heap request_no_roles 1
        (CheckAuth_init \<lparr>role_ID = ''root'', Tags = Map.empty, Permissions = [], Subroles = [1],
           Parent = None\<rparr>) =
       Inr ((CheckAuth_init \<lparr>role_ID = ''root'', Tags = Map.empty, Permissions = [],
               Subroles = [1], Parent = None\<rparr>)
              \<lparr>response_channel := Some
                 \<lparr>Auth = True, Role_ID = Some ''analyst'', PermissionGranting = Some 2,
                  PermissionsMismatching = []\<rparr>,
               wg := 1, exited := [1]\<rparr>)"
proof -
  let ?root = "\<lparr>role_ID = ''root'', Tags = Map.empty, Permissions = [], Subroles = [1::nat],
        Parent = None\<rparr>"
  have n: "(1::nat) = length (Subroles ?root)" "(1::nat) \<le> 1" by simp_all
  have r: "role_objs analyst_heap (Subroles ?root ! 0) =
      Some \<lparr>role_ID = ''analyst'', Tags = Map.empty, Permissions = [2], Subroles = [],
            Parent = None\<rparr>"
    using analyst_role by simp
  have v: "validate analyst_heap (Subroles ?root ! 0) (req_Action request_no_roles)
      (req_Constraints request_no_roles) =
      \<lparr>Auth = True, Role_ID = None, PermissionGranting = Some 2, PermissionsMismatching = []\<rparr>"
    using validate_analyst by simp
  note t = CheckAuth_roles_slice [OF analyst_root n, of "[]" request_no_roles]
  from t have a: "CheckAuth_roles ?root = [None, Some 1]" "wg (CheckAuth_init ?root) = 2"
    by (simp_all add: CheckAuth_roles_def)
  from t have b: "task_step analyst_heap request_no_roles 0 (CheckAuth_init ?root) = Inl NilDereference"
    "CheckAuth [Task 0] (analyst_heap, analyst_engine) request_no_roles = Panicked NilDereference"
    by simp_all
  from t r v have c: "task_step analyst_heap request_no_roles 1 (CheckAuth_init ?root) =
       Inr ((CheckAuth_init ?root)
              \<lparr>response_channel := Some
                 \<lparr>Auth = True, Role_ID = Some ''analyst'', PermissionGranting = Some 2,
                  PermissionsMismatching = []\<rparr>,
               wg := 1, exited := [1]\<rparr>)"
    by simp
  from analyst_root a b c show ?thesis by simp
qed

subsection \<open>The store under the loader\<close>

lemma roles_kept_refl: "roles_kept h h"
  by (simp add: roles_kept_def)

lemma update_role_other: "x \<noteq> r \<Longrightarrow> role_objs (update_role r f h) x = role_objs h x"
  by (simp add: update_role_def split: option.splits)

lemma update_role_next: "next_ref (update_role r f h) = next_ref h"
  by (simp add: update_role_def split: option.splits)

lemma update_role_subroles_same:
  "(\<And>x. Subroles (f x) = Subroles x) \<Longrightarrow>
   subroles_from n (update_role r f h) role = subroles_from n h role"
  by (auto simp: subroles_from_def update_role_def split: option.splits)

lemma findOrCreateService_roles:
  "role_objs (fst (fst (findOrCreateService ID s))) = role_objs (fst s)
   \<and> next_ref (fst s) \<le> next_ref (fst (fst (findOrCreateService ID s)))"
  by (auto simp: findOrCreateService_def NewService_def split: prod.splits option.splits)

lemma findOrCreateResource_roles:
  "role_objs (fst (fst (findOrCreateResource ID s))) = role_objs (fst s)
   \<and> next_ref (fst s) \<le> next_ref (fst (fst (findOrCreateResource ID s)))"
  by (auto simp: findOrCreateResource_def NewResource_def split: prod.splits option.splits)

lemma actionFromJSON_roles:
  "role_objs (fst (fst (actionFromJSON aj s))) = role_objs (fst s)
   \<and> next_ref (fst s) \<le> next_ref (fst (fst (actionFromJSON aj s)))"
proof (cases "validateFields aj")
  case None
  obtain s1 service where 1: "findOrCreateService (aj_Service aj) s = (s1, service)"
    by (cases "findOrCreateService (aj_Service aj) s")
  obtain s2 resource where 2: "findOrCreateResource (aj_Resource aj) s1 = (s2, resource)"
    by (cases "findOrCreateResource (aj_Resource aj) s1")
  show ?thesis
    using None 1 2 findOrCreateService_roles [of "aj_Service aj" s]
      findOrCreateResource_roles [of "aj_Resource aj" s1]
    by (simp add: actionFromJSON_def)
next
  case (Some err)
  then show ?thesis by (simp add: actionFromJSON_def)
qed

lemma LoadPermissionFromJSON_roles:
  "role_objs (fst (fst (LoadPermissionFromJSON pj s))) = role_objs (fst s)
   \<and> next_ref (fst s) \<le> next_ref (fst (fst (LoadPermissionFromJSON pj s)))"
proof -
  obtain h engine where s: "s = (h, engine)" by (cases s)
  obtain h1 permission where 1: "newPermission (pj_ID pj) h = (h1, permission)"
    by (cases "newPermission (pj_ID pj) h")
  then have h1: "role_objs h1 = role_objs h" "next_ref h \<le> next_ref h1"
    by (auto simp: newPermission_def)
  obtain s2 res where 2: "actionFromJSON (pj_Action pj) (h1, engine) = (s2, res)"
    by (cases "actionFromJSON (pj_Action pj) (h1, engine)")
  have a: "role_objs (fst s2) = role_objs h1" "next_ref h1 \<le> next_ref (fst s2)"
    using actionFromJSON_roles [of "pj_Action pj" "(h1, engine)"] 2 by simp_all
  show ?thesis
    using s 1 2 a h1
    by (cases res; cases s2)
      (auto simp: LoadPermissionFromJSON_def update_permission_def split: option.splits)
qed

lemma loadPermissions_roles:
  "next_ref (fst s) \<le> next_ref (fst (fst (loadPermissions pjs role s)))
   \<and> (\<forall>x. x \<noteq> role \<longrightarrow> role_objs (fst (fst (loadPermissions pjs role s))) x = role_objs (fst s) x)
   \<and> subroles_from n (fst (fst (loadPermissions pjs role s))) role = subroles_from n (fst s) role"
proof (induction pjs arbitrary: s)
  case Nil
  then show ?case by simp
next
  case (Cons pj pjs)
  obtain s' res where 1: "LoadPermissionFromJSON pj s = (s', res)"
    by (cases "LoadPermissionFromJSON pj s")
  have p: "role_objs (fst s') = role_objs (fst s)" "next_ref (fst s) \<le> next_ref (fst s')"
    using LoadPermissionFromJSON_roles [of pj s] 1 by simp_all
  show ?case
  proof (cases res)
    case (Inl err)
    with 1 p show ?thesis by (simp add: subroles_from_def)
  next
    case (Inr permission)
    obtain h' engine' where s': "s' = (h', engine')" by (cases s')
    let ?h2 = "update_role role (\<lambda>r. r\<lparr>Permissions := insert_ref permission (Permissions r)\<rparr>) h'"
    have ih: "next_ref ?h2 \<le> next_ref (fst (fst (loadPermissions pjs role (?h2, engine'))))
      \<and> (\<forall>x. x \<noteq> role \<longrightarrow> role_objs (fst (fst (loadPermissions pjs role (?h2, engine')))) x = role_objs ?h2 x)
      \<and> subroles_from n (fst (fst (loadPermissions pjs role (?h2, engine')))) role = subroles_from n ?h2 role"
      using Cons.IH [of "(?h2, engine')"] by simp
    have s2: "subroles_from n ?h2 role = subroles_from n h' role"
      by (rule update_role_subroles_same) simp
    have s3: "subroles_from n h' role = subroles_from n (fst s) role"
      using p s' by (simp add: subroles_from_def)
    show ?thesis
      using 1 Inr s' ih p s2 s3 by (simp add: update_role_next update_role_other)
  qed
qed

lemma fold_update_role_roles:
  assumes "\<And>a x. Subroles (g a x) = Subroles x"
  shows "next_ref (fold (\<lambda>a. update_role role (g a)) as h) = next_ref h
   \<and> (\<forall>x. x \<noteq> role \<longrightarrow> role_objs (fold (\<lambda>a. update_role role (g a)) as h) x = role_objs h x)
   \<and> subroles_from n (fold (\<lambda>a. update_role role (g a)) as h) role = subroles_from n h role"
proof (induction as arbitrary: h)
  case Nil
  then show ?case by simp
next
  case (Cons a as)
  have "subroles_from n (update_role role (g a) h) role = subroles_from n h role"
    by (rule update_role_subroles_same) (rule assms)
  with Cons.IH [of "update_role role (g a) h"]
  show ?case by (simp add: update_role_next update_role_other)
qed

lemma copyTags_roles:
  "next_ref (copyTags tags role h) = next_ref h
   \<and> (\<forall>x. x \<noteq> role \<longrightarrow> role_objs (copyTags tags role h) x = role_objs h x)
   \<and> subroles_from n (copyTags tags role h) role = subroles_from n h role"
  unfolding copyTags_def case_prod_beta
  by (rule fold_update_role_roles) simp

lemma fold_link_kept:
  "list_all (\<lambda>c. n \<le> c) cs \<Longrightarrow>
   next_ref (fold (\<lambda>subrole. update_role subrole f) cs h) = next_ref h
   \<and> (\<forall>x. x < n \<longrightarrow> role_objs (fold (\<lambda>subrole. update_role subrole f) cs h) x = role_objs h x)"
proof (induction cs arbitrary: h)
  case Nil
  then show ?case by simp
next
  case (Cons c cs)
  then have "n \<le> c" "list_all (\<lambda>c. n \<le> c) cs" by simp_all
  with Cons.IH [of "update_role c f h"] show ?case
    by (auto simp: update_role_next update_role_other)
qed

lemma linkSubroles_kept:
  "subroles_from n h role \<Longrightarrow>
   next_ref (linkSubroles role h) = next_ref h
   \<and> (\<forall>x. x < n \<longrightarrow> role_objs (linkSubroles role h) x = role_objs h x)"
  using fold_link_kept [of n _ "\<lambda>x. x\<lparr>Parent := Some role\<rparr>" h]
  by (auto simp: linkSubroles_def subroles_from_def split: option.splits)

lemma NewRole_kept:
  "NewRole malformed ID h = (h1, Inr role) \<Longrightarrow>
   role = next_ref h \<and> next_ref h1 = Suc (next_ref h)
   \<and> (\<forall>x. x \<noteq> role \<longrightarrow> role_objs h1 x = role_objs h x) \<and> subroles_from n h1 role"
  by (auto simp: NewRole_def subroles_from_def split: if_splits)

lemma NewRole_failed: "NewRole malformed ID h = (h1, Inl err) \<Longrightarrow> h1 = h"
  by (auto simp: NewRole_def split: if_splits)

lemma insert_subrole_from:
  "subroles_from n h role \<Longrightarrow> n \<le> subrole \<Longrightarrow>
   subroles_from n (update_role role (\<lambda>r. r\<lparr>Subroles := insert_ref subrole (Subroles r)\<rparr>) h) role"
  by (auto simp: subroles_from_def update_role_def insert_ref_def split: option.splits)

lemma subroles_from_same:
  "role_objs h' role = role_objs h role \<Longrightarrow> subroles_from n h' role = subroles_from n h role"
  by (simp add: subroles_from_def)

lemma recursivelyLoad_kept:
  "roles_kept (fst s) (fst (fst (recursivelyLoadRoleFromJSON malformed rj s)))
   \<and> (\<forall>role. snd (recursivelyLoadRoleFromJSON malformed rj s) = Inr role \<longrightarrow>
         next_ref (fst s) \<le> role \<and> role < next_ref (fst (fst (recursivelyLoadRoleFromJSON malformed rj s))))"
  "role < next_ref (fst s) \<longrightarrow>
     next_ref (fst s) \<le> next_ref (fst (fst (loadSubroles malformed rjs role s)))
     \<and> (\<forall>x. x < next_ref (fst s) \<longrightarrow> x \<noteq> role \<longrightarrow>
           role_objs (fst (fst (loadSubroles malformed rjs role s))) x = role_objs (fst s) x)
     \<and> (\<forall>n. n \<le> next_ref (fst s) \<longrightarrow> subroles_from n (fst s) role \<longrightarrow>
           subroles_from n (fst (fst (loadSubroles malformed rjs role s))) role)"
proof (induction malformed rj s and malformed rjs role s
    rule: recursivelyLoadRoleFromJSON_loadSubroles.induct)
  case (1 malformed ID tags perms subs s)
  obtain h engine where s: "s = (h, engine)" by (cases s)
  show ?case
  proof (cases "roles engine ID")
    case (Some existing)
    with s show ?thesis by (simp add: roles_kept_refl)
  next
    case None
    obtain h1 r1 where n: "NewRole malformed ID h = (h1, r1)" by (cases "NewRole malformed ID h")
    show ?thesis
    proof (cases r1)
      case (Inl err)
      with n have "h1 = h" by (simp add: NewRole_failed)
      with s None n Inl show ?thesis by (simp add: roles_kept_refl)
    next
      case (Inr role)
      have new: "role = next_ref h" "next_ref h1 = Suc (next_ref h)"
        "\<forall>x. x \<noteq> role \<longrightarrow> role_objs h1 x = role_objs h x" "subroles_from (next_ref h) h1 role"
        using NewRole_kept [of malformed ID h h1 role "next_ref h"] n Inr by blast+
      let ?hc = "copyTags tags role h1"
      have c: "next_ref ?hc = next_ref h1"
        "\<forall>x. x \<noteq> role \<longrightarrow> role_objs ?hc x = role_objs h1 x"
        "subroles_from (next_ref h) ?hc role = subroles_from (next_ref h) h1 role"
        using copyTags_roles [of tags role h1 "next_ref h"] by simp_all
      obtain s2 r2 where p: "loadPermissions perms role (?hc, engine) = (s2, r2)"
        by (cases "loadPermissions perms role (?hc, engine)")
      have l: "next_ref ?hc \<le> next_ref (fst s2)"
        "\<forall>x. x \<noteq> role \<longrightarrow> role_objs (fst s2) x = role_objs ?hc x"
        "subroles_from (next_ref h) (fst s2) role = subroles_from (next_ref h) ?hc role"
        using loadPermissions_roles [of "(?hc, engine)" perms role "next_ref h"] p by simp_all
      have k2: "roles_kept h (fst s2)"
        using new c l by (auto simp: roles_kept_def)
      have sf2: "subroles_from (next_ref h) (fst s2) role"
        using new c l by simp
      have lt2: "role < next_ref (fst s2)"
        using new c l by simp
      show ?thesis
      proof (cases r2)
        case (Some err)
        with s None n Inr p k2 show ?thesis by simp
      next
        case None2: None
        obtain s3 r3 where ls: "loadSubroles malformed subs role s2 = (s3, r3)"
          by (cases "loadSubroles malformed subs role s2")
        have ih: "role < next_ref (fst s2) \<longrightarrow>
           next_ref (fst s2) \<le> next_ref (fst (fst (loadSubroles malformed subs role s2)))
           \<and> (\<forall>x. x < next_ref (fst s2) \<longrightarrow> x \<noteq> role \<longrightarrow>
                 role_objs (fst (fst (loadSubroles malformed subs role s2))) x = role_objs (fst s2) x)
           \<and> (\<forall>n. n \<le> next_ref (fst s2) \<longrightarrow> subroles_from n (fst s2) role \<longrightarrow>
                 subroles_from n (fst (fst (loadSubroles malformed subs role s2))) role)"
          using "1.IH" [OF s [symmetric] None n [symmetric] Inr p [symmetric] None2] .
        with lt2 ls have i3: "next_ref (fst s2) \<le> next_ref (fst s3)"
          "\<forall>x. x < next_ref (fst s2) \<longrightarrow> x \<noteq> role \<longrightarrow> role_objs (fst s3) x = role_objs (fst s2) x"
          "\<forall>n. n \<le> next_ref (fst s2) \<longrightarrow> subroles_from n (fst s2) role \<longrightarrow> subroles_from n (fst s3) role"
          by simp_all
        have k3: "roles_kept h (fst s3)"
          using k2 i3 new by (auto simp: roles_kept_def)
        have "next_ref h \<le> next_ref (fst s2)" using k2 by (simp add: roles_kept_def)
        with i3(3) sf2 have sf3: "subroles_from (next_ref h) (fst s3) role" by blast
        show ?thesis
        proof (cases r3)
          case (Some err)
          with s None n Inr p None2 ls k3 show ?thesis by simp
        next
          case None3: None
          obtain h3 engine3 where s3: "s3 = (h3, engine3)" by (cases s3)
          have lk: "next_ref (linkSubroles role h3) = next_ref h3"
            "\<forall>x. x < next_ref h \<longrightarrow> role_objs (linkSubroles role h3) x = role_objs h3 x"
            using linkSubroles_kept [of "next_ref h" h3 role] sf3 s3 by simp_all
          have k: "roles_kept h (linkSubroles role h3)"
            using k3 s3 lk by (auto simp: roles_kept_def)
          have "role < next_ref (linkSubroles role h3)"
            using lk lt2 i3(1) s3 by simp
          with s None n Inr p None2 ls None3 s3 k new(1) show ?thesis by simp
        qed
      qed
    qed
  qed
next
  case (2 malformed role s)
  then show ?case by simp
next
  case (3 malformed subroleJSON rest role s)
  obtain s' res where 1: "recursivelyLoadRoleFromJSON malformed subroleJSON s = (s', res)"
    by (cases "recursivelyLoadRoleFromJSON malformed subroleJSON s")
  have ih1: "roles_kept (fst s) (fst s')"
    "\<forall>subrole. res = Inr subrole \<longrightarrow> next_ref (fst s) \<le> subrole \<and> subrole < next_ref (fst s')"
    using "3.IH"(1) 1 by simp_all
  show ?case
  proof (intro impI)
    assume lt: "role < next_ref (fst s)"
    then have same: "role_objs (fst s') role = role_objs (fst s) role"
      using ih1(1) by (simp add: roles_kept_def)
    show "next_ref (fst s) \<le> next_ref (fst (fst (loadSubroles malformed (subroleJSON # rest) role s)))
     \<and> (\<forall>x. x < next_ref (fst s) \<longrightarrow> x \<noteq> role \<longrightarrow>
           role_objs (fst (fst (loadSubroles malformed (subroleJSON # rest) role s))) x = role_objs (fst s) x)
     \<and> (\<forall>n. n \<le> next_ref (fst s) \<longrightarrow> subroles_from n (fst s) role \<longrightarrow>
           subroles_from n (fst (fst (loadSubroles malformed (subroleJSON # rest) role s))) role)"
    proof (cases res)
      case (Inl err)
      with 1 ih1(1) same show ?thesis by (simp add: roles_kept_def subroles_from_def)
    next
      case (Inr subrole)
      obtain h' engine' where s': "s' = (h', engine')" by (cases s')
      let ?h2 = "update_role role (\<lambda>r. r\<lparr>Subroles := insert_ref subrole (Subroles r)\<rparr>) h'"
      let ?hf = "fst (fst (loadSubroles malformed rest role (?h2, engine')))"
      have sub: "next_ref (fst s) \<le> subrole" using ih1(2) Inr by simp
      have le: "next_ref (fst s) \<le> next_ref h'" using ih1(1) s' by (simp add: roles_kept_def)
      have "role < next_ref (fst (?h2, engine')) \<longrightarrow>
           next_ref (fst (?h2, engine')) \<le> next_ref ?hf
           \<and> (\<forall>x. x < next_ref (fst (?h2, engine')) \<longrightarrow> x \<noteq> role \<longrightarrow>
                 role_objs ?hf x = role_objs (fst (?h2, engine')) x)
           \<and> (\<forall>n. n \<le> next_ref (fst (?h2, engine')) \<longrightarrow> subroles_from n (fst (?h2, engine')) role \<longrightarrow>
                 subroles_from n ?hf role)"
        using "3.IH"(2) [OF 1 [symmetric] s' [symmetric] Inr] .
      with lt le have ih2: "next_ref h' \<le> next_ref ?hf"
        "\<forall>x. x < next_ref h' \<longrightarrow> x \<noteq> role \<longrightarrow> role_objs ?hf x = role_objs ?h2 x"
        "\<forall>n. n \<le> next_ref h' \<longrightarrow> subroles_from n ?h2 role \<longrightarrow> subroles_from n ?hf role"
        by (simp_all add: update_role_next)
      have a: "next_ref (fst s) \<le> next_ref ?hf" using le ih2(1) by simp
      have b: "\<forall>x. x < next_ref (fst s) \<longrightarrow> x \<noteq> role \<longrightarrow> role_objs ?hf x = role_objs (fst s) x"
      proof (intro allI impI)
        fix x assume x: "x < next_ref (fst s)" "x \<noteq> role"
        then have "role_objs ?hf x = role_objs ?h2 x" using ih2(2) le by simp
        also have "\<dots> = role_objs h' x" using x by (simp add: update_role_other)
        also have "\<dots> = role_objs (fst s) x" using ih1(1) s' x by (simp add: roles_kept_def)
        finally show "role_objs ?hf x = role_objs (fst s) x" .
      qed
      have c: "\<forall>n. n \<le> next_ref (fst s) \<longrightarrow> subroles_from n (fst s) role \<longrightarrow> subroles_from n ?hf role"
      proof (intro allI impI)
        fix n assume n: "n \<le> next_ref (fst s)" "subroles_from n (fst s) role"
        have "subroles_from n h' role"
          using n(2) same s' subroles_from_same [of h' role "fst s" n] by simp
        then have "subroles_from n ?h2 role"
          using n(1) sub by (intro insert_subrole_from) simp_all
        then show "subroles_from n ?hf role" using ih2(3) n(1) le by simp
      qed
      from a b c 1 Inr s' show ?thesis by simp
    qed
  qed
qed

lemma load_partly_bad:
  "snd (LoadRoleFromJSON none_malformed partly_bad_JSON fresh_state) = Some RoleAlreadyExists
   \<and> services fresh_engine ''data'' = None
   \<and> services (snd (fst (LoadRoleFromJSON none_malformed partly_bad_JSON fresh_state))) ''data'' = Some 3
   \<and> roles fresh_engine ''nurse'' = None
   \<and> roles (snd (fst (LoadRoleFromJSON none_malformed partly_bad_JSON fresh_state))) ''nurse'' = Some 5"
  by (simp add: LoadRoleFromJSON_def partly_bad_JSON_def p1_JSON_def fresh_state_def fresh_heap_def
      fresh_engine_def fresh_root_def NewRole_def copyTags_def LoadPermissionFromJSON_def
      newPermission_def actionFromJSON_def validateFields_def findOrCreateService_def
      findOrCreateResource_def NewService_def NewResource_def update_permission_def newAction_def
      update_role_def insert_ref_def linkSubroles_def none_malformed_def eval_nat_numeral)

lemma findOrCreateService_outcome:
  "roles (snd (fst (findOrCreateService ID s))) = roles (snd s)
   \<and> dom (services (snd (fst (findOrCreateService ID s)))) = insert ID (dom (services (snd s)))"
  by (auto simp: findOrCreateService_def NewService_def split: prod.splits option.splits)

lemma LoadPermissionFromJSON_outcome:
  "(case validateFields (pj_Action pj) of
      Some err \<Rightarrow> snd (LoadPermissionFromJSON pj s) = Inl err
        \<and> snd (fst (LoadPermissionFromJSON pj s)) = snd s
    | None \<Rightarrow> (\<exists>p. snd (LoadPermissionFromJSON pj s) = Inr p)
        \<and> roles (snd (fst (LoadPermissionFromJSON pj s))) = roles (snd s)
        \<and> dom (services (snd (fst (LoadPermissionFromJSON pj s)))) =
            insert (aj_Service (pj_Action pj)) (dom (services (snd s))))"
proof -
  obtain h engine where s: "s = (h, engine)" by (cases s)
  obtain h1 permission where 1: "newPermission (pj_ID pj) h = (h1, permission)"
    by (cases "newPermission (pj_ID pj) h")
  show ?thesis
  proof (cases "validateFields (pj_Action pj)")
    case (Some err)
    with s 1 show ?thesis by (simp add: LoadPermissionFromJSON_def actionFromJSON_def)
  next
    case None
    obtain s1 service where 2: "findOrCreateService (aj_Service (pj_Action pj)) (h1, engine) = (s1, service)"
      by (cases "findOrCreateService (aj_Service (pj_Action pj)) (h1, engine)")
    obtain s2 resource where 3: "findOrCreateResource (aj_Resource (pj_Action pj)) s1 = (s2, resource)"
      by (cases "findOrCreateResource (aj_Resource (pj_Action pj)) s1")
    have a: "roles (snd s1) = roles engine"
      "dom (services (snd s1)) = insert (aj_Service (pj_Action pj)) (dom (services engine))"
      using findOrCreateService_outcome [of "aj_Service (pj_Action pj)" "(h1, engine)"] 2 by simp_all
    have b: "snd s2 = snd s1"
      using findOrCreateResource_engine [of "aj_Resource (pj_Action pj)" s1] 3 by simp
    show ?thesis
      using s 1 None 2 3 a b
      by (cases s2) (simp add: LoadPermissionFromJSON_def actionFromJSON_def)
  qed
qed

lemma loadPermissions_outcome:
  "snd (loadPermissions pjs role s) = snd (actions_outcome pjs)
   \<and> roles (snd (fst (loadPermissions pjs role s))) = roles (snd s)
   \<and> dom (services (snd (fst (loadPermissions pjs role s)))) =
       dom (services (snd s)) \<union> set (fst (actions_outcome pjs))"
proof (induction pjs arbitrary: s)
  case Nil
  then show ?case by simp
next
  case (Cons pj pjs)
  obtain s' res where 1: "LoadPermissionFromJSON pj s = (s', res)"
    by (cases "LoadPermissionFromJSON pj s")
  show ?case
  proof (cases "validateFields (pj_Action pj)")
    case (Some err)
    with 1 LoadPermissionFromJSON_outcome [of pj s] show ?thesis by simp
  next
    case None
    with 1 LoadPermissionFromJSON_outcome [of pj s] obtain p where
      p: "res = Inr p" "roles (snd s') = roles (snd s)"
      "dom (services (snd s')) = insert (aj_Service (pj_Action pj)) (dom (services (snd s)))"
      by auto
    obtain h' engine' where s': "s' = (h', engine')" by (cases s')
    let ?s2 = "(update_role role (\<lambda>r. r\<lparr>Permissions := insert_ref p (Permissions r)\<rparr>) h', engine')"
    obtain resolved result where ao: "actions_outcome pjs = (resolved, result)"
      by (cases "actions_outcome pjs")
    from Cons.IH [of ?s2] ao
    have ih: "snd (loadPermissions pjs role ?s2) = result"
      "roles (snd (fst (loadPermissions pjs role ?s2))) = roles engine'"
      "dom (services (snd (fst (loadPermissions pjs role ?s2)))) = dom (services engine') \<union> set resolved"
      by simp_all
    show ?thesis using 1 None p s' ao ih by auto
  qed
qed

lemma recursivelyLoad_outcome:
  "error_of (snd (recursivelyLoadRoleFromJSON malformed rj s)) =
       snd (snd (load_outcome malformed (registered (snd s)) rj))
   \<and> registered (snd (fst (recursivelyLoadRoleFromJSON malformed rj s))) =
       fst (load_outcome malformed (registered (snd s)) rj)
   \<and> dom (services (snd (fst (recursivelyLoadRoleFromJSON malformed rj s)))) =
       dom (services (snd s)) \<union> set (fst (snd (load_outcome malformed (registered (snd s)) rj)))"
  "snd (loadSubroles malformed rjs role s) =
       snd (snd (subroles_outcome malformed (registered (snd s)) rjs))
   \<and> registered (snd (fst (loadSubroles malformed rjs role s))) =
       fst (subroles_outcome malformed (registered (snd s)) rjs)
   \<and> dom (services (snd (fst (loadSubroles malformed rjs role s)))) =
       dom (services (snd s)) \<union> set (fst (snd (subroles_outcome malformed (registered (snd s)) rjs)))"
proof (induction malformed rj s and malformed rjs role s
    rule: recursivelyLoadRoleFromJSON_loadSubroles.induct)
  case (1 malformed ID tags perms subs s)
  obtain h engine where s: "s = (h, engine)" by (cases s)
  show ?case
  proof (cases "roles engine ID")
    case (Some existing)
    with s show ?thesis by (simp add: registered_def error_of_def)
  next
    case None
    then have nk: "\<not> registered engine ID" by (simp add: registered_def)
    obtain h1 r1 where n: "NewRole malformed ID h = (h1, r1)" by (cases "NewRole malformed ID h")
    show ?thesis
    proof (cases r1)
      case (Inl err)
      with n have "ID = [] \<or> malformed ID" "err = InvalidIdentifier"
        by (auto simp: NewRole_def split: if_splits)
      with s None nk n Inl show ?thesis by (simp add: error_of_def)
    next
      case (Inr role)
      with n have ok: "\<not> (ID = [] \<or> malformed ID)"
        by (auto simp: NewRole_def split: if_splits)
      obtain s2 r2 where p: "loadPermissions perms role (copyTags tags role h1, engine) = (s2, r2)"
        by (cases "loadPermissions perms role (copyTags tags role h1, engine)")
      obtain resolved where ao: "actions_outcome perms = (resolved, r2)"
        using loadPermissions_outcome [of perms role "(copyTags tags role h1, engine)"] p
        by (cases "actions_outcome perms") simp
      have l: "roles (snd s2) = roles engine"
        "dom (services (snd s2)) = dom (services engine) \<union> set resolved"
        using loadPermissions_outcome [of perms role "(copyTags tags role h1, engine)"] p ao
        by simp_all
      then have reg2: "registered (snd s2) = registered engine"
        by (simp add: registered_def fun_eq_iff)
      show ?thesis
      proof (cases r2)
        case (Some err)
        with s None nk n Inr ok p ao l reg2 show ?thesis by (simp add: error_of_def)
      next
        case None2: None
        obtain s3 r3 where ls: "loadSubroles malformed subs role s2 = (s3, r3)"
          by (cases "loadSubroles malformed subs role s2")
        obtain known' resolved' where so:
          "subroles_outcome malformed (registered engine) subs = (known', resolved', r3)"
          using "1.IH" [OF s [symmetric] None n [symmetric] Inr p [symmetric] None2] ls reg2
          by (cases "subroles_outcome malformed (registered engine) subs") simp
        have ih: "registered (snd s3) = known'"
          "dom (services (snd s3)) = dom (services (snd s2)) \<union> set resolved'"
          using "1.IH" [OF s [symmetric] None n [symmetric] Inr p [symmetric] None2] ls reg2 so
          by simp_all
        show ?thesis
        proof (cases r3)
          case (Some err)
          with s None nk n Inr ok p ao None2 ls so ih l show ?thesis
            by (auto simp: error_of_def)
        next
          case None3: None
          obtain h3 engine3 where s3: "s3 = (h3, engine3)" by (cases s3)
          have "registered (engine3\<lparr>roles := (roles engine3)(ID \<mapsto> role)\<rparr>) = known'(ID := True)"
            using ih(1) s3 by (auto simp: registered_def fun_eq_iff)
          with s None nk n Inr ok p ao None2 ls so ih l None3 s3 show ?thesis
            by (auto simp: error_of_def)
        qed
      qed
    qed
  qed
next
  case (2 malformed role s)
  then show ?case by simp
next
  case (3 malformed subroleJSON rest role s)
  obtain s' res where 1: "recursivelyLoadRoleFromJSON malformed subroleJSON s = (s', res)"
    by (cases "recursivelyLoadRoleFromJSON malformed subroleJSON s")
  obtain known' resolved where lo:
    "load_outcome malformed (registered (snd s)) subroleJSON = (known', resolved, error_of res)"
    using "3.IH"(1) 1 by (cases "load_outcome malformed (registered (snd s)) subroleJSON") simp
  have ih1: "registered (snd s') = known'"
    "dom (services (snd s')) = dom (services (snd s)) \<union> set resolved"
    using "3.IH"(1) 1 lo by simp_all
  show ?case
  proof (cases res)
    case (Inl err)
    with 1 lo ih1 show ?thesis by (simp add: error_of_def)
  next
    case (Inr subrole)
    obtain h' engine' where s': "s' = (h', engine')" by (cases s')
    let ?s2 = "(update_role role (\<lambda>r. r\<lparr>Subroles := insert_ref subrole (Subroles r)\<rparr>) h', engine')"
    obtain known'' resolved' result where so:
      "subroles_outcome malformed known' rest = (known'', resolved', result)"
      by (cases "subroles_outcome malformed known' rest")
    have ih2: "snd (loadSubroles malformed rest role ?s2) = result"
      "registered (snd (fst (loadSubroles malformed rest role ?s2))) = known''"
      "dom (services (snd (fst (loadSubroles malformed rest role ?s2)))) =
         dom (services engine') \<union> set resolved'"
      using "3.IH"(2) [OF 1 [symmetric] s' [symmetric] Inr] ih1(1) s' so by simp_all
    show ?thesis
      using 1 Inr s' lo so ih1 ih2 by (auto simp: error_of_def)
  qed
qed

lemma load_second_analyst:
  "snd (LoadRoleFromJSON none_malformed second_analyst_JSON (analyst_heap, analyst_engine)) =
     Some RoleAlreadyExists
   \<and> services (snd (fst (LoadRoleFromJSON none_malformed second_analyst_JSON
         (analyst_heap, analyst_engine)))) ''billing'' = Some 7"
  by (simp add: LoadRoleFromJSON_def second_analyst_JSON_def billing_JSON_def analyst_heap_def
      analyst_engine_def NewRole_def copyTags_def LoadPermissionFromJSON_def
      newPermission_def actionFromJSON_def validateFields_def findOrCreateService_def
      findOrCreateResource_def NewService_def NewResource_def update_permission_def newAction_def
      update_role_def insert_ref_def linkSubroles_def none_malformed_def eval_nat_numeral)

text \<open>
  Claim C2, as stated, fails. The description \<open>staff\<close> has a subrole that takes the
  identifier of the root, so its load into the fresh engine fails with
  \<open>RoleAlreadyExists\<close> (none of its identifiers being malformed); afterwards the service registry holds the service of the
  permission \<open>p1\<close> and the role registry holds the subrole \<open>nurse\<close>, both loaded before
  the failing node was reached.
\<close>

theorem failed_load_leaves_registrations:
  "snd (LoadRoleFromJSON none_malformed partly_bad_JSON fresh_state) = Some RoleAlreadyExists
   \<and> services (snd (fst (LoadRoleFromJSON none_malformed partly_bad_JSON fresh_state))) \<noteq> services fresh_engine
   \<and> roles (snd (fst (LoadRoleFromJSON none_malformed partly_bad_JSON fresh_state))) \<noteq> roles fresh_engine"
proof -
  have "services (snd (fst (LoadRoleFromJSON none_malformed partly_bad_JSON fresh_state))) ''data''
      \<noteq> services fresh_engine ''data''"
    using load_partly_bad by simp
  moreover have "roles (snd (fst (LoadRoleFromJSON none_malformed partly_bad_JSON fresh_state))) ''nurse''
      \<noteq> roles fresh_engine ''nurse''"
    using load_partly_bad by simp
  ultimately show ?thesis using load_partly_bad by metis
qed

text \<open>
  Claim C2, amended. When \<^verbatim>\<open>LoadRoleFromJSON\<close> fails, the permission registry, the
  resource registry and the root are exactly as before; every role object that existed
  before the call (the root and the whole forest under it) is unchanged, so no node of
  the description hangs under the root; and every role and every service that was
  registered before is still registered, to the same object. The services registered
  afterwards are those registered before together with the services of the actions that
  were resolved before the load stopped.
\<close>

theorem failed_load_keeps_forest:
  assumes "snd (LoadRoleFromJSON malformed roleJSON (h, engine)) = Some err"
  shows "permissions (snd (fst (LoadRoleFromJSON malformed roleJSON (h, engine)))) = permissions engine
    \<and> resources (snd (fst (LoadRoleFromJSON malformed roleJSON (h, engine)))) = resources engine
    \<and> root_role (snd (fst (LoadRoleFromJSON malformed roleJSON (h, engine)))) = root_role engine
    \<and> (\<forall>r. r < next_ref h \<longrightarrow>
          role_objs (fst (fst (LoadRoleFromJSON malformed roleJSON (h, engine)))) r = role_objs h r)
    \<and> (\<forall>ID r. roles engine ID = Some r \<longrightarrow>
          roles (snd (fst (LoadRoleFromJSON malformed roleJSON (h, engine)))) ID = Some r)
    \<and> (\<forall>ID v. services engine ID = Some v \<longrightarrow>
          services (snd (fst (LoadRoleFromJSON malformed roleJSON (h, engine)))) ID = Some v)
    \<and> dom (services (snd (fst (LoadRoleFromJSON malformed roleJSON (h, engine))))) =
        dom (services engine)
        \<union> set (fst (snd (load_outcome malformed (registered engine) roleJSON)))
    \<and> snd (snd (load_outcome malformed (registered engine) roleJSON)) = Some err"
proof -
  obtain s' res where 1: "recursivelyLoadRoleFromJSON malformed roleJSON (h, engine) = (s', res)"
    by (cases "recursivelyLoadRoleFromJSON malformed roleJSON (h, engine)")
  from assms 1 have res: "res = Inl err"
    by (cases res) (simp_all add: LoadRoleFromJSON_def)
  with 1 have l: "fst (LoadRoleFromJSON malformed roleJSON (h, engine)) = s'"
    by (simp add: LoadRoleFromJSON_def)
  have "engine_extends engine (snd s')"
    using recursivelyLoad_extends(1) [of "(h, engine)" malformed roleJSON] 1 by simp
  then have e: "permissions (snd s') = permissions engine" "resources (snd s') = resources engine"
    "root_role (snd s') = root_role engine"
    "\<forall>ID r. roles engine ID = Some r \<longrightarrow> roles (snd s') ID = Some r"
    "\<forall>ID v. services engine ID = Some v \<longrightarrow> services (snd s') ID = Some v"
    by (auto simp: engine_extends_def map_le_def dom_def)
  have "roles_kept h (fst s')"
    using recursivelyLoad_kept(1) [of "(h, engine)" malformed roleJSON] 1 by simp
  then have k: "\<forall>r. r < next_ref h \<longrightarrow> role_objs (fst s') r = role_objs h r"
    by (simp add: roles_kept_def)
  have o: "dom (services (snd s')) =
      dom (services engine) \<union> set (fst (snd (load_outcome malformed (registered engine) roleJSON)))"
    "snd (snd (load_outcome malformed (registered engine) roleJSON)) = Some err"
    using recursivelyLoad_outcome(1) [of malformed roleJSON "(h, engine)"] 1 res
    by (simp_all add: error_of_def)
  from e k o l show ?thesis by simp
qed

theorem failed_load_keeps_forest_witness:
  "snd (LoadRoleFromJSON none_malformed second_analyst_JSON (analyst_heap, analyst_engine)) =
     Some RoleAlreadyExists
   \<and> permissions (snd (fst (LoadRoleFromJSON none_malformed second_analyst_JSON
         (analyst_heap, analyst_engine)))) = Map.empty
   \<and> resources (snd (fst (LoadRoleFromJSON none_malformed second_analyst_JSON
         (analyst_heap, analyst_engine)))) = Map.empty
   \<and> root_role (snd (fst (LoadRoleFromJSON none_malformed second_analyst_JSON
         (analyst_heap, analyst_engine)))) = 0
   \<and> role_objs (fst (fst (LoadRoleFromJSON none_malformed second_analyst_JSON
         (analyst_heap, analyst_engine)))) 0 =
       Some \<lparr>role_ID = ''root'', Tags = Map.empty, Permissions = [], Subroles = [1], Parent = None\<rparr>
   \<and> role_objs (fst (fst (LoadRoleFromJSON none_malformed second_analyst_JSON
         (analyst_heap, analyst_engine)))) 1 =
       Some \<lparr>role_ID = ''analyst'', Tags = Map.empty, Permissions = [2], Subroles = [],
             Parent = None\<rparr>
   \<and> roles (snd (fst (LoadRoleFromJSON none_malformed second_analyst_JSON
         (analyst_heap, analyst_engine)))) ''analyst'' = Some 1
   \<and> services (snd (fst (LoadRoleFromJSON none_malformed second_analyst_JSON
         (analyst_heap, analyst_engine)))) ''data'' = Some 3
   \<and> dom (services (snd (fst (LoadRoleFromJSON none_malformed second_analyst_JSON
         (analyst_heap, analyst_engine))))) = {''data'', ''billing''}"
proof -
  have f: "snd (LoadRoleFromJSON none_malformed second_analyst_JSON (analyst_heap, analyst_engine)) =
      Some RoleAlreadyExists"
    using load_second_analyst by simp
  have k: "\<not> registered analyst_engine ''staff''" "\<not> registered analyst_engine ''nurse''"
    "registered analyst_engine ''analyst''"
    by (simp_all add: registered_def analyst_engine_def)
  have o: "fst (snd (load_outcome none_malformed (registered analyst_engine) second_analyst_JSON)) =
      [''billing'']"
    using k by (simp add: second_analyst_JSON_def billing_JSON_def none_malformed_def
        validateFields_def)
  have old: "(0::nat) < next_ref analyst_heap" "(1::nat) < next_ref analyst_heap"
    "roles analyst_engine ''analyst'' = Some 1" "services analyst_engine ''data'' = Some 3"
    "dom (services analyst_engine) = {''data''}"
    "permissions analyst_engine = Map.empty" "resources analyst_engine = Map.empty"
    "root_role analyst_engine = 0"
    by (simp_all add: analyst_heap_def analyst_engine_def)
  have objs: "role_objs analyst_heap 0 =
      Some \<lparr>role_ID = ''root'', Tags = Map.empty, Permissions = [], Subroles = [1], Parent = None\<rparr>"
    "role_objs analyst_heap 1 =
      Some \<lparr>role_ID = ''analyst'', Tags = Map.empty, Permissions = [2], Subroles = [],
            Parent = None\<rparr>"
    by (simp_all add: analyst_heap_def)
  from failed_load_keeps_forest [OF f] f o old objs show ?thesis
    by (simp add: insert_commute)
qed

subsection \<open>Identifiers that are already registered\<close>

lemma LoadPermissionFromJSON_valid:
  "validateFields (pj_Action pj) = None \<Longrightarrow> \<exists>s' p. LoadPermissionFromJSON pj s = (s', Inr p)"
  by (auto simp: LoadPermissionFromJSON_def actionFromJSON_def split: prod.splits option.splits)

lemma loadPermissions_valid:
  "list_all (\<lambda>p. validateFields (pj_Action p) = None) pjs \<Longrightarrow>
   snd (loadPermissions pjs role s) = None"
proof (induction pjs arbitrary: s)
  case Nil
  then show ?case by simp
next
  case (Cons pj pjs)
  then have "validateFields (pj_Action pj) = None" by simp
  then obtain s' p where 1: "LoadPermissionFromJSON pj s = (s', Inr p)"
    using LoadPermissionFromJSON_valid by blast
  obtain h' engine' where s': "s' = (h', engine')" by (cases s')
  from Cons 1 s' show ?case by simp
qed

lemma registered_in_extends:
  "engine_extends e e' \<Longrightarrow> registered_in e ids \<Longrightarrow> registered_in e' ids"
  by (fastforce simp: registered_in_def list_ex_iff engine_extends_def map_le_def dom_def)

lemma registered_in_append:
  "registered_in e (xs @ ys) = (registered_in e xs \<or> registered_in e ys)"
  by (auto simp: registered_in_def list_ex_iff)

lemma recursivelyLoad_duplicate:
  "(registered_in (snd s) (role_ids rj) \<longrightarrow>
      (\<exists>err. snd (recursivelyLoadRoleFromJSON malformed rj s) = Inl err))
   \<and> (validates malformed rj \<longrightarrow>
        (\<forall>err. snd (recursivelyLoadRoleFromJSON malformed rj s) = Inl err \<longrightarrow> err = RoleAlreadyExists))"
  "(registered_in (snd s) (concat (map role_ids rjs)) \<longrightarrow>
      (\<exists>err. snd (loadSubroles malformed rjs role s) = Some err))
   \<and> (list_all (validates malformed) rjs \<longrightarrow>
        (\<forall>err. snd (loadSubroles malformed rjs role s) = Some err \<longrightarrow> err = RoleAlreadyExists))"
proof (induction malformed rj s and malformed rjs role s
    rule: recursivelyLoadRoleFromJSON_loadSubroles.induct)
  case (1 malformed ID tags perms subs s)
  obtain h engine where s: "s = (h, engine)" by (cases s)
  show ?case
  proof (cases "roles engine ID")
    case (Some existing)
    with s show ?thesis by simp
  next
    case None
    obtain h1 r1 where n: "NewRole malformed ID h = (h1, r1)" by (cases "NewRole malformed ID h")
    show ?thesis
    proof (cases r1)
      case (Inl err)
      with n have "ID = [] \<or> malformed ID" by (auto simp: NewRole_def split: if_splits)
      with s None n Inl show ?thesis by auto
    next
      case (Inr role)
      obtain s2 r2 where p: "loadPermissions perms role (copyTags tags role h1, engine) = (s2, r2)"
        by (cases "loadPermissions perms role (copyTags tags role h1, engine)")
      have e2: "engine_extends engine (snd s2)"
        using loadPermissions_extends [of "(copyTags tags role h1, engine)" perms role] p by simp
      show ?thesis
      proof (cases r2)
        case (Some err)
        have "\<not> validates malformed (RoleJSON ID tags perms subs)"
        proof
          assume "validates malformed (RoleJSON ID tags perms subs)"
          then have "snd (loadPermissions perms role (copyTags tags role h1, engine)) = None"
            by (simp add: loadPermissions_valid)
          with p Some show False by simp
        qed
        with s None n Inr p Some show ?thesis by (simp del: validates.simps)
      next
        case None2: None
        obtain s3 r3 where l: "loadSubroles malformed subs role s2 = (s3, r3)"
          by (cases "loadSubroles malformed subs role s2")
        have ih: "(registered_in (snd s2) (concat (map role_ids subs)) \<longrightarrow>
             (\<exists>err. snd (loadSubroles malformed subs role s2) = Some err))
          \<and> (list_all (validates malformed) subs \<longrightarrow>
             (\<forall>err. snd (loadSubroles malformed subs role s2) = Some err \<longrightarrow> err = RoleAlreadyExists))"
          using "1.IH" [OF s [symmetric] None n [symmetric] Inr p [symmetric] None2] .
        have reg: "registered_in (snd s) (role_ids (RoleJSON ID tags perms subs)) \<Longrightarrow>
            registered_in (snd s2) (concat (map role_ids subs))"
        proof -
          assume "registered_in (snd s) (role_ids (RoleJSON ID tags perms subs))"
          with s None have "registered_in engine (concat (map role_ids subs))"
            by (simp add: registered_in_def)
          with e2 show ?thesis by (rule registered_in_extends)
        qed
        show ?thesis
        proof (cases r3)
          case (Some err)
          with s None n Inr p None2 l ih show ?thesis by simp
        next
          case None3: None
          obtain h3 engine3 where s3: "s3 = (h3, engine3)" by (cases s3)
          have "\<not> registered_in (snd s) (role_ids (RoleJSON ID tags perms subs))"
            using reg ih l None3 by auto
          with s None n Inr p None2 l None3 s3 show ?thesis by simp
        qed
      qed
    qed
  qed
next
  case (2 malformed role s)
  then show ?case by (simp add: registered_in_def)
next
  case (3 malformed subroleJSON rest role s)
  obtain s' res where 1: "recursivelyLoadRoleFromJSON malformed subroleJSON s = (s', res)"
    by (cases "recursivelyLoadRoleFromJSON malformed subroleJSON s")
  have ih1: "registered_in (snd s) (role_ids subroleJSON) \<longrightarrow> (\<exists>err. res = Inl err)"
    "validates malformed subroleJSON \<longrightarrow> (\<forall>err. res = Inl err \<longrightarrow> err = RoleAlreadyExists)"
    using "3.IH"(1) 1 by simp_all
  have e: "engine_extends (snd s) (snd s')"
    using recursivelyLoad_extends(1) [of s malformed subroleJSON] 1 by simp
  show ?case
  proof (cases res)
    case (Inl err)
    with 1 ih1 show ?thesis by simp
  next
    case (Inr subrole)
    obtain h' engine' where s': "s' = (h', engine')" by (cases s')
    let ?s2 = "(update_role role (\<lambda>r. r\<lparr>Subroles := insert_ref subrole (Subroles r)\<rparr>) h', engine')"
    have ih2: "(registered_in (snd ?s2) (concat (map role_ids rest)) \<longrightarrow>
          (\<exists>err. snd (loadSubroles malformed rest role ?s2) = Some err))
       \<and> (list_all (validates malformed) rest \<longrightarrow>
          (\<forall>err. snd (loadSubroles malformed rest role ?s2) = Some err \<longrightarrow> err = RoleAlreadyExists))"
      using "3.IH"(2) [OF 1 [symmetric] s' [symmetric] Inr] .
    have reg: "registered_in (snd s) (concat (map role_ids (subroleJSON # rest))) \<Longrightarrow>
        registered_in engine' (concat (map role_ids rest))"
    proof -
      assume "registered_in (snd s) (concat (map role_ids (subroleJSON # rest)))"
      then have "registered_in (snd s) (role_ids subroleJSON)
          \<or> registered_in (snd s) (concat (map role_ids rest))"
        by (simp add: registered_in_append)
      with ih1(1) Inr have "registered_in (snd s) (concat (map role_ids rest))" by auto
      with e s' show ?thesis by (auto dest: registered_in_extends)
    qed
    from 1 Inr s' ih2 reg show ?thesis by auto
  qed
qed

lemma fresh_root_registered:
  "roles fresh_engine ''root'' \<noteq> None \<and> roles fresh_engine [] = None
   \<and> roles fresh_engine ''staff'' = None"
  by (simp add: fresh_engine_def)

text \<open>
  Claim C5, as stated, fails, whatever identifiers are malformed. Both descriptions hold a
  subrole with the registered identifier \<open>root\<close>. The first has the empty identifier:
  its load into the fresh engine fails with \<open>InvalidIdentifier\<close>. The second has a
  permission without a service: its load fails with \<open>InvalidIdentifier\<close> when
  \<open>staff\<close> is malformed and with \<open>InvalidAction\<close> otherwise. Neither fails with
  \<open>RoleAlreadyExists\<close>.
\<close>

theorem duplicate_identifier_other_error:
  "\<forall>malformed.
     ''root'' \<in> set (role_ids empty_identifier_JSON) \<and> ''root'' \<in> set (role_ids invalid_action_JSON)
     \<and> roles fresh_engine ''root'' \<noteq> None
     \<and> snd (LoadRoleFromJSON malformed empty_identifier_JSON fresh_state) = Some InvalidIdentifier
     \<and> snd (LoadRoleFromJSON malformed invalid_action_JSON fresh_state) =
         Some (if malformed ''staff'' then InvalidIdentifier else InvalidAction)"
  by (simp add: LoadRoleFromJSON_def empty_identifier_JSON_def invalid_action_JSON_def
      invalid_p_JSON_def fresh_state_def fresh_heap_def fresh_engine_def fresh_root_def NewRole_def
      copyTags_def LoadPermissionFromJSON_def newPermission_def actionFromJSON_def
      validateFields_def)

text \<open>
  Claim C5, amended. When a description holds, at any node, an identifier that is
  registered in the engine, \<^verbatim>\<open>LoadRoleFromJSON\<close> fails, and the error is that of the first
  check that fails in the order of the load (at a node: the identifier is registered,
  then \<^verbatim>\<open>NewRole\<close> rejects it, then the action of a permission is invalid, in turn, then
  the subroles, in turn). The error is \<open>RoleAlreadyExists\<close> when every identifier and
  every action of the description is valid; and when the registered identifier is the
  description's own, the error is \<open>RoleAlreadyExists\<close> and the store and the engine are
  untouched.
\<close>

theorem duplicate_identifier_fails:
  assumes "ID \<in> set (role_ids roleJSON)" and "roles engine ID \<noteq> None"
  shows "\<exists>err. snd (LoadRoleFromJSON malformed roleJSON (h, engine)) = Some err
    \<and> snd (snd (load_outcome malformed (registered engine) roleJSON)) = Some err
    \<and> (validates malformed roleJSON \<longrightarrow> err = RoleAlreadyExists)
    \<and> (rj_ID roleJSON = ID \<longrightarrow>
          err = RoleAlreadyExists
          \<and> fst (LoadRoleFromJSON malformed roleJSON (h, engine)) = (h, engine))"
proof -
  from assms have r: "registered_in (snd (h, engine)) (role_ids roleJSON)"
    by (auto simp: registered_in_def list_ex_iff)
  obtain s' res where 1: "recursivelyLoadRoleFromJSON malformed roleJSON (h, engine) = (s', res)"
    by (cases "recursivelyLoadRoleFromJSON malformed roleJSON (h, engine)")
  from recursivelyLoad_duplicate(1) [of "(h, engine)" roleJSON malformed] r 1
  obtain err where err: "res = Inl err" "validates malformed roleJSON \<longrightarrow> err = RoleAlreadyExists"
    by auto
  have out: "snd (snd (load_outcome malformed (registered engine) roleJSON)) = Some err"
    using recursivelyLoad_outcome(1) [of malformed roleJSON "(h, engine)"] 1 err(1)
    by (simp add: error_of_def)
  have top: "rj_ID roleJSON = ID \<longrightarrow> err = RoleAlreadyExists \<and> s' = (h, engine)"
    using assms(2) 1 err(1) by (cases roleJSON) (auto split: option.splits)
  from 1 err out top show ?thesis by (simp add: LoadRoleFromJSON_def)
qed

theorem duplicate_identifier_fails_witness:
  "''root'' \<in> set (role_ids partly_bad_JSON) \<and> roles fresh_engine ''root'' \<noteq> None
   \<and> validates none_malformed partly_bad_JSON
   \<and> snd (LoadRoleFromJSON none_malformed partly_bad_JSON (fresh_heap, fresh_engine)) =
       Some RoleAlreadyExists
   \<and> ''root'' \<in> set (role_ids duplicate_first_JSON)
   \<and> \<not> validates none_malformed duplicate_first_JSON
   \<and> snd (LoadRoleFromJSON none_malformed duplicate_first_JSON (fresh_heap, fresh_engine)) =
       Some RoleAlreadyExists
   \<and> ''root'' \<in> set (role_ids invalid_action_JSON)
   \<and> snd (LoadRoleFromJSON none_malformed invalid_action_JSON (fresh_heap, fresh_engine)) =
       Some InvalidAction
   \<and> snd (LoadRoleFromJSON none_malformed (RoleJSON ''root'' [] [] []) (fresh_heap, fresh_engine)) =
       Some RoleAlreadyExists
   \<and> fst (LoadRoleFromJSON none_malformed (RoleJSON ''root'' [] [] []) (fresh_heap, fresh_engine)) =
       (fresh_heap, fresh_engine)"
proof -
  have b: "roles fresh_engine ''root'' \<noteq> None" by (simp add: fresh_engine_def)
  have k: "registered fresh_engine ''root''" "\<not> registered fresh_engine ''staff''"
    "\<not> registered fresh_engine ''nurse''"
    by (simp_all add: registered_def fresh_engine_def)
  have a1: "''root'' \<in> set (role_ids partly_bad_JSON)" by (simp add: partly_bad_JSON_def)
  have v1: "validates none_malformed partly_bad_JSON"
    by (simp add: partly_bad_JSON_def p1_JSON_def validateFields_def none_malformed_def)
  have a2: "''root'' \<in> set (role_ids duplicate_first_JSON)"
    by (simp add: duplicate_first_JSON_def)
  have v2: "\<not> validates none_malformed duplicate_first_JSON"
    by (simp add: duplicate_first_JSON_def)
  have o2: "snd (snd (load_outcome none_malformed (registered fresh_engine) duplicate_first_JSON)) =
      Some RoleAlreadyExists"
    using k by (simp add: duplicate_first_JSON_def none_malformed_def)
  have a3: "''root'' \<in> set (role_ids invalid_action_JSON)"
    by (simp add: invalid_action_JSON_def)
  have o3: "snd (snd (load_outcome none_malformed (registered fresh_engine) invalid_action_JSON)) =
      Some InvalidAction"
    using k by (simp add: invalid_action_JSON_def invalid_p_JSON_def none_malformed_def
        validateFields_def)
  have a4: "''root'' \<in> set (role_ids (RoleJSON ''root'' [] [] []))" by simp
  from duplicate_identifier_fails [OF a1 b, of none_malformed fresh_heap] v1
  have 1: "snd (LoadRoleFromJSON none_malformed partly_bad_JSON (fresh_heap, fresh_engine)) =
      Some RoleAlreadyExists"
    by auto
  from duplicate_identifier_fails [OF a2 b, of none_malformed fresh_heap] o2
  have 2: "snd (LoadRoleFromJSON none_malformed duplicate_first_JSON (fresh_heap, fresh_engine)) =
      Some RoleAlreadyExists"
    by auto
  from duplicate_identifier_fails [OF a3 b, of none_malformed fresh_heap] o3
  have 3: "snd (LoadRoleFromJSON none_malformed invalid_action_JSON (fresh_heap, fresh_engine)) =
      Some InvalidAction"
    by auto
  from duplicate_identifier_fails [OF a4 b, of none_malformed fresh_heap]
  have 4: "snd (LoadRoleFromJSON none_malformed (RoleJSON ''root'' [] [] []) (fresh_heap, fresh_engine)) =
      Some RoleAlreadyExists
    \<and> fst (LoadRoleFromJSON none_malformed (RoleJSON ''root'' [] [] []) (fresh_heap, fresh_engine)) =
      (fresh_heap, fresh_engine)"
    by auto
  from b a1 v1 1 a2 v2 2 a3 3 4 show ?thesis by simp
qed

end
